theory Spec2Isabelle
  imports Main "HOL-Library.Sublist"
begin

section \<open>Python string operations used by pyircbot.py\<close>

text \<open>
  A Python \<open>str\<close> is modelled as a \<open>string\<close>: a list of characters, each a code point
  below 256. The operations below are the ones the bot applies to inbound lines:
  \<open>startswith\<close>, \<open>in\<close>, \<open>split\<close> (with and without \<open>maxsplit\<close>),
  \<open>replace\<close> and \<open>strip\<close>.
\<close>

definition startswith :: "string \<Rightarrow> string \<Rightarrow> bool" where
  "startswith s p = prefix p s"

text \<open>\<open>sub in s\<close>: \<open>sub\<close> occurs in \<open>s\<close> as a contiguous run.\<close>

definition contains :: "string \<Rightarrow> string \<Rightarrow> bool" where
  "contains s sub = sublist sub s"

text \<open>
  \<open>partition_str sep s\<close> finds the leftmost occurrence of \<open>sep\<close> in \<open>s\<close> and returns the
  text before it and the text after it, or \<open>None\<close> when \<open>sep\<close> does not occur.
\<close>

fun partition_str :: "string \<Rightarrow> string \<Rightarrow> (string \<times> string) option" where
  "partition_str sep [] = None"
| "partition_str sep (c # cs) =
     (if prefix sep (c # cs) then Some ([], drop (length sep) (c # cs))
      else (case partition_str sep cs of
              None \<Rightarrow> None
            | Some (a, b) \<Rightarrow> Some (c # a, b)))"

lemma partition_str_shorter:
  "partition_str sep s = Some (a, b) \<Longrightarrow> sep \<noteq> [] \<Longrightarrow> length b < length s"
proof (induction s arbitrary: a)
  case Nil
  then show ?case by simp
next
  case (Cons c cs)
  show ?case
  proof (cases "prefix sep (c # cs)")
    case True
    with Cons.prems show ?thesis by auto
  next
    case False
    with Cons.prems obtain a' where "partition_str sep cs = Some (a', b)"
      by (auto split: option.splits)
    with Cons.IH Cons.prems(2) have "length b < length cs" by blast
    then show ?thesis by simp
  qed
qed

text \<open>
  \<open>s.split(sep)\<close>. Python raises \<open>ValueError\<close> on an empty separator; every call in the
  bot passes a non-empty literal, and the model returns \<open>[s]\<close> there.
\<close>

function py_split :: "string \<Rightarrow> string \<Rightarrow> string list" where
  "py_split sep s =
     (if sep = [] then [s]
      else (case partition_str sep s of
              None \<Rightarrow> [s]
            | Some (a, b) \<Rightarrow> a # py_split sep b))"
  by pat_completeness auto
termination
  by (relation "measure (\<lambda>(sep, s). length s)") (auto simp: partition_str_shorter)

declare py_split.simps [simp del]

text \<open>\<open>s.split(sep, maxsplit)\<close>: at most \<open>maxsplit\<close> cuts, the rest of the text is the last part.\<close>

fun py_split_max :: "string \<Rightarrow> nat \<Rightarrow> string \<Rightarrow> string list" where
  "py_split_max sep 0 s = [s]"
| "py_split_max sep (Suc n) s =
     (case partition_str sep s of
        None \<Rightarrow> [s]
      | Some (a, b) \<Rightarrow> a # py_split_max sep n b)"

text \<open>\<open>s.replace(old, new)\<close>: every occurrence, leftmost first, without overlap.\<close>

function py_replace :: "string \<Rightarrow> string \<Rightarrow> string \<Rightarrow> string" where
  "py_replace old new s =
     (if old = [] then s
      else (case partition_str old s of
              None \<Rightarrow> s
            | Some (a, b) \<Rightarrow> a @ new @ py_replace old new b))"
  by pat_completeness auto
termination
  by (relation "measure (\<lambda>(old, new, s). length s)") (auto simp: partition_str_shorter)

declare py_replace.simps [simp del]

text \<open>
  \<open>s.strip()\<close> removes leading and trailing whitespace. Below code point 256 Python's
  whitespace is 9 to 13, 28 to 32, 133 and 160.
\<close>

definition isspace :: "char \<Rightarrow> bool" where
  "isspace c = (let n = (of_char c :: nat)
                in (9 \<le> n \<and> n \<le> 13) \<or> (28 \<le> n \<and> n \<le> 32) \<or> n = 133 \<or> n = 160)"

definition strip :: "string \<Rightarrow> string" where
  "strip s = rev (dropWhile isspace (rev (dropWhile isspace s)))"

text \<open>\<open>sep.join(parts)\<close>.\<close>

fun py_join :: "string \<Rightarrow> string list \<Rightarrow> string" where
  "py_join sep [] = []"
| "py_join sep [x] = x"
| "py_join sep (x # y # ys) = x @ sep @ py_join sep (y # ys)"

text \<open>
  \<open>str(n)\<close> for an integer. \<open>decimal_digit\<close> is the class \<open>\d\<close> of the regular
  expressions: below code point 256 it holds the digits 0 to 9 only.
\<close>

definition digit_char :: "nat \<Rightarrow> char" where
  "digit_char d = char_of (48 + d)"

function str_nat :: "nat \<Rightarrow> string" where
  "str_nat n = (if n < 10 then [digit_char n] else str_nat (n div 10) @ [digit_char (n mod 10)])"
  by pat_completeness auto
termination
  by (relation "measure id") auto

declare str_nat.simps [simp del]

definition str_int :: "int \<Rightarrow> string" where
  "str_int i = (if i < 0 then CHR ''-'' # str_nat (nat (- i)) else str_nat (nat i))"

definition decimal_digit :: "char \<Rightarrow> bool" where
  "decimal_digit c = (48 \<le> (of_char c :: nat) \<and> (of_char c :: nat) \<le> 57)"

text \<open>
  \<open>int(s)\<close> for a run of decimal digits: its value, or \<open>None\<close> for the \<open>ValueError\<close> that the
  interpreter raises when the run has more than 4300 digits, the default limit of
  Python 3.11 and later for the conversion of a string to an integer.
\<close>

definition int_of_digits :: "string \<Rightarrow> int option" where
  "int_of_digits s =
     (if length s > 4300 then None
      else Some (foldl (\<lambda>n c. 10 * n + (int (of_char c) - 48)) 0 s))"

section \<open>Line framing in the receive loop\<close>

text \<open>
  The three statements of \<open>run\<close> that frame the stream:
  \<^verbatim>\<open>buffer += data; lines = buffer.split('\r\n'); buffer = lines.pop()\<close>.
  \<open>feed\<close> returns the complete lines and the new buffer.
\<close>

definition CRLF :: string where
  "CRLF = [CHR 0x0D, CHR 0x0A]"

definition feed :: "string \<Rightarrow> string \<Rightarrow> string list \<times> string" where
  "feed buffer data =
     (let lines = py_split CRLF (buffer @ data)
      in (butlast lines, last lines))"

section \<open>Configuration (config.py)\<close>

record config =
  IRC_SERVER :: string
  IRC_PORT :: int
  IRC_CHANNEL :: string
  BOT_NICKNAME :: string
  BOT_USERNAME :: string
  BOT_REALNAME :: string
  COMMAND_PREFIX :: string
  MAX_DICE_COUNT :: int
  MAX_DICE_SIDES :: int
  AUTO_RECONNECT :: bool
  RECONNECT_DELAY :: int
  RATE_LIMIT_ENABLED :: bool
  RATE_LIMIT_SECONDS :: int

text \<open>The values config.py takes when no environment variable is set.\<close>

definition default_config :: config where
  "default_config =
     \<lparr> IRC_SERVER = ''your_irc_server_here'', IRC_PORT = 6667,
       IRC_CHANNEL = ''your_channel_here'',
       BOT_NICKNAME = ''your_bot_nickname_here'',
       BOT_USERNAME = ''your_bot_username_here'',
       BOT_REALNAME = ''your_bot_realname_here'',
       COMMAND_PREFIX = ''!'', MAX_DICE_COUNT = 10, MAX_DICE_SIDES = 100,
       AUTO_RECONNECT = True, RECONNECT_DELAY = 30,
       RATE_LIMIT_ENABLED = False, RATE_LIMIT_SECONDS = 2 \<rparr>"

section \<open>The bot object\<close>

text \<open>
  One entry of \<open>stats['monthly_stats']\<close>: the counters of one calendar month. The key of
  the entry is the month as \<open>strftime('%m-%Y')\<close> prints it.
\<close>

record bucket =
  m_messages_received :: int
  m_commands_processed :: int
  m_user_messages :: "string \<rightharpoonup> int"

definition empty_bucket :: bucket where
  "empty_bucket =
     \<lparr> m_messages_received = 0, m_commands_processed = 0, m_user_messages = Map.empty \<rparr>"

text \<open>
  The attributes of \<open>PyIRCBot\<close> that the session engine reads or writes. \<open>has_socket\<close>
  says that \<open>self.socket\<close> is set; \<open>sent\<close> lists the lines handed to \<open>send_raw\<close>, oldest
  first, without the line terminator that \<open>send_raw\<close> appends. The all-time counters of
  \<open>self.stats\<close> are fields of the record itself.
\<close>

record bot =
  channel :: string
  nickname :: string
  username :: string
  realname :: string
  has_socket :: bool
  running :: bool
  current_month :: string
  messages_received :: int
  commands_processed :: int
  user_messages :: "string \<rightharpoonup> int"
  monthly_stats :: "string \<rightharpoonup> bucket"
  sent :: "string list"

text \<open>\<open>__init__\<close>, called without arguments as \<open>main\<close> does; \<open>month\<close> is the clock's month.\<close>

definition init_bot :: "config \<Rightarrow> string \<Rightarrow> bot" where
  "init_bot cfg month =
     \<lparr> channel = IRC_CHANNEL cfg, nickname = BOT_NICKNAME cfg,
       username = BOT_USERNAME cfg, realname = BOT_REALNAME cfg,
       has_socket = False, running = False, current_month = month,
       messages_received = 0, commands_processed = 0, user_messages = Map.empty,
       monthly_stats = [month \<mapsto> empty_bucket], sent = [] \<rparr>"

text \<open>
  \<open>check_month_change\<close>, with the clock's month \<open>now\<close> as an argument. Renaming the log
  file and reopening the log are left out.
\<close>

definition check_month_change :: "string \<Rightarrow> bot \<Rightarrow> bot" where
  "check_month_change now self =
     (if now \<noteq> current_month self then
        let self1 = self\<lparr>current_month := now\<rparr>
        in if monthly_stats self1 now = None
           then self1\<lparr>monthly_stats := (monthly_stats self1)(now \<mapsto> empty_bucket)\<rparr>
           else self1
      else self)"

definition get_monthly_stats :: "bot \<Rightarrow> bucket" where
  "get_monthly_stats self =
     (case monthly_stats self (current_month self) of
        Some b \<Rightarrow> b
      | None \<Rightarrow> empty_bucket)"

text \<open>
  \<open>get_monthly_stats\<close> returns the stored dictionary itself when the month has one, so an
  update through the returned value changes the store; when the month has none it returns
  a new dictionary, and an update of that is lost.
\<close>

definition update_monthly_stats :: "(bucket \<Rightarrow> bucket) \<Rightarrow> bot \<Rightarrow> bot" where
  "update_monthly_stats f self =
     (case monthly_stats self (current_month self) of
        Some b \<Rightarrow> self\<lparr>monthly_stats := (monthly_stats self)(current_month self \<mapsto> f b)\<rparr>
      | None \<Rightarrow> self)"

text \<open>
  \<open>send_raw\<close> catches and logs a failure of the socket, so the caller continues either
  way.
\<close>

definition send_raw :: "string \<Rightarrow> bot \<Rightarrow> bot" where
  "send_raw message self = self\<lparr>sent := sent self @ [message]\<rparr>"

definition send_message :: "string \<Rightarrow> string \<Rightarrow> bot \<Rightarrow> bot" where
  "send_message target message self = send_raw (''PRIVMSG '' @ target @ '' :'' @ message) self"

definition join_channel :: "string \<Rightarrow> bot \<Rightarrow> bot" where
  "join_channel ch self = send_raw (''JOIN '' @ ch) self"

section \<open>Command handlers\<close>

text \<open>
  A handler is called as \<open>func(sender, message)\<close> on the bot. It returns a reply (a string
  or \<open>None\<close>) or raises. What a handler reads outside the bot (clock, random numbers,
  network) is fixed inside the function that stands for it. No handler of the bot writes
  to the bot's attributes, so a handler returns no new state.
\<close>

datatype hresult = Return "string option" | Raise

type_synonym handler = "bot \<Rightarrow> string \<Rightarrow> string \<Rightarrow> hresult"

text \<open>\<open>if response:\<close> holds for a string that is not empty.\<close>

definition truthy :: "string option \<Rightarrow> bool" where
  "truthy response = (case response of None \<Rightarrow> False | Some text \<Rightarrow> text \<noteq> [])"

definition cmd_help :: handler where
  "cmd_help self sender message =
     Return (Some ''Available commands: .help, .time, .ping, .dice, .8ball, .weather, .joke, .stats, .google'')"

definition cmd_ping :: handler where
  "cmd_ping self sender message = Return (Some (''Pong! Hello '' @ sender @ ''!''))"

text \<open>
  \<open>random.randint(a, b)\<close> on the raw value \<open>r\<close> that the generator supplies for this draw:
  a value between \<open>a\<close> and \<open>b\<close>, or \<open>None\<close> for the \<open>ValueError\<close> of an empty range.
\<close>

definition randint :: "nat \<Rightarrow> int \<Rightarrow> int \<Rightarrow> int option" where
  "randint r a b = (if b < a then None else Some (a + int (r mod nat (b - a + 1))))"

text \<open>
  \<open>re.search(r'\.dice (\d+)d(\d+)', message)\<close>. A run of digits can only be followed by
  the letter when it is the longest run, so the greedy groups are \<open>takeWhile decimal_digit\<close>.
  \<open>dice_match_at\<close> matches at the start of the text, \<open>dice_search\<close> tries every position from
  the left. Both return the two groups.
\<close>

definition dice_match_at :: "string \<Rightarrow> (string \<times> string) option" where
  "dice_match_at s =
     (if prefix ''.dice '' s then
        let r = drop 6 s; g1 = takeWhile decimal_digit r
        in if g1 = [] then None
           else (case dropWhile decimal_digit r of
                   [] \<Rightarrow> None
                 | c # r2 \<Rightarrow>
                     if c = CHR ''d'' then
                       let g2 = takeWhile decimal_digit r2
                       in if g2 = [] then None else Some (g1, g2)
                     else None)
      else None)"

fun dice_search :: "string \<Rightarrow> (string \<times> string) option" where
  "dice_search [] = None"
| "dice_search (c # cs) =
     (case dice_match_at (c # cs) of
        Some g \<Rightarrow> Some g
      | None \<Rightarrow> dice_search cs)"

text \<open>
  The list comprehension of \<open>cmd_dice\<close>: \<open>n\<close> draws from the generator, whose raw values
  are \<open>tape 0\<close>, \<open>tape 1\<close>, ...; \<open>k\<close> counts the draws made so far. The result is the list
  of rolls, or \<open>None\<close> when a draw raised, with the number of draws made.
\<close>

fun roll :: "(nat \<Rightarrow> nat) \<Rightarrow> nat \<Rightarrow> int \<Rightarrow> nat \<Rightarrow> int list option \<times> nat" where
  "roll tape k sides 0 = (Some [], k)"
| "roll tape k sides (Suc n) =
     (case randint (tape k) 1 sides of
        None \<Rightarrow> (None, k)
      | Some v \<Rightarrow>
          (case roll tape (Suc k) sides n of
             (None, k') \<Rightarrow> (None, k')
           | (Some vs, k') \<Rightarrow> (Some (v # vs), k')))"

text \<open>\<open>str(rolls)\<close> for a list of integers.\<close>

definition repr_list :: "int list \<Rightarrow> string" where
  "repr_list xs = ''['' @ py_join '', '' (map str_int xs) @ '']''"

text \<open>
  \<open>cmd_dice\<close> returns the reply and the number of random draws it made. The bare
  \<open>except\<close> turns any error of the body, of \<open>int\<close> or of a draw, into the last reply.
\<close>

definition cmd_dice :: "(nat \<Rightarrow> nat) \<Rightarrow> string \<Rightarrow> string \<Rightarrow> string \<times> nat" where
  "cmd_dice tape sender message =
     (if message = ''.dice'' then
        (case randint (tape 0) 1 6 of
           None \<Rightarrow> (''Invalid dice format! Use .dice or .dice XdY'', 0)
         | Some v \<Rightarrow> (sender @ '' rolled: '' @ str_int v, 1))
      else
        (case dice_search message of
           Some (g1, g2) \<Rightarrow>
             (case int_of_digits g1 of
                None \<Rightarrow> (''Invalid dice format! Use .dice or .dice XdY'', 0)
              | Some num_dice \<Rightarrow>
                  (case int_of_digits g2 of
                     None \<Rightarrow> (''Invalid dice format! Use .dice or .dice XdY'', 0)
                   | Some sides \<Rightarrow>
                       if num_dice > 10 \<or> sides > 100 then
                         (''Dice too large! Max 10 dice, 100 sides.'', 0)
                       else
                         (case roll tape 0 sides (nat num_dice) of
                            (None, k) \<Rightarrow> (''Invalid dice format! Use .dice or .dice XdY'', k)
                          | (Some rolls, k) \<Rightarrow>
                              (sender @ '' rolled '' @ str_int num_dice @ ''d'' @ str_int sides
                                 @ '': '' @ repr_list rolls
                                 @ '' (Total: '' @ str_int (sum_list rolls) @ '')'', k))))
         | None \<Rightarrow> (''Usage: .dice or .dice XdY (e.g., .dice 2d20)'', 0)))"

text \<open>
  The handlers whose bodies are outside the session engine: they read the clock, draw
  random replies or call a web service.
\<close>

record externals =
  cmd_time :: handler
  cmd_8ball :: handler
  cmd_weather :: handler
  cmd_joke :: handler
  cmd_stats :: handler
  cmd_google :: handler
  cmd_topusers :: handler
  dice_tape :: "nat \<Rightarrow> nat"

text \<open>\<open>self.commands\<close>: a dictionary, iterated in the order its keys were inserted.\<close>

definition commands :: "externals \<Rightarrow> (string \<times> handler) list" where
  "commands ext =
     [(''.help'', cmd_help),
      (''.time'', cmd_time ext),
      (''.ping'', cmd_ping),
      (''.dice'', \<lambda>self sender message. Return (Some (fst (cmd_dice (dice_tape ext) sender message)))),
      (''.8ball'', cmd_8ball ext),
      (''.weather'', cmd_weather ext),
      (''.joke'', cmd_joke ext),
      (''.stats'', cmd_stats ext),
      (''.google'', cmd_google ext),
      (''.topusers'', cmd_topusers ext)]"

section \<open>Dispatch and statistics\<close>

text \<open>How a call ended: it returned, or an exception left it.\<close>

datatype completion = Normal | Raised

text \<open>The loop over \<open>self.commands.items()\<close> in \<open>handle_channel_message\<close>.\<close>

fun channel_commands :: "(string \<times> handler) list \<Rightarrow> bot \<Rightarrow> string \<Rightarrow> string \<Rightarrow> completion \<times> bot" where
  "channel_commands [] self sender message = (Normal, self)"
| "channel_commands ((cmd, func) # rest) self sender message =
     (if startswith message cmd then
        let self1 = self\<lparr>commands_processed := commands_processed self + 1\<rparr>;
            self2 = update_monthly_stats
                     (\<lambda>b. b\<lparr>m_commands_processed := m_commands_processed b + 1\<rparr>) self1
        in (case func self2 sender message of
              Raise \<Rightarrow> (Raised, self2)
            | Return response \<Rightarrow>
                (Normal, if truthy response
                         then send_message (channel self2) (the response) self2
                         else self2))
      else channel_commands rest self sender message)"

definition bump :: "(string \<rightharpoonup> int) \<Rightarrow> string \<Rightarrow> (string \<rightharpoonup> int)" where
  "bump tally sender =
     (let tally1 = (if tally sender = None then tally(sender \<mapsto> 0) else tally)
      in tally1(sender \<mapsto> the (tally1 sender) + 1))"

definition handle_channel_message :: "(string \<times> handler) list \<Rightarrow> bot \<Rightarrow> string \<Rightarrow> string \<Rightarrow> completion \<times> bot" where
  "handle_channel_message cmds self sender message =
     (let self1 = self\<lparr>user_messages := bump (user_messages self) sender\<rparr>;
          self2 = update_monthly_stats
                   (\<lambda>b. b\<lparr>m_user_messages := bump (m_user_messages b) sender\<rparr>) self1
      in channel_commands cmds self2 sender message)"

text \<open>\<open>handle_private_message\<close>: the same loop, the reply goes to the sender.\<close>

fun handle_private_message :: "(string \<times> handler) list \<Rightarrow> bot \<Rightarrow> string \<Rightarrow> string \<Rightarrow> completion \<times> bot" where
  "handle_private_message [] self sender message = (Normal, self)"
| "handle_private_message ((cmd, func) # rest) self sender message =
     (if startswith message cmd then
        let self1 = self\<lparr>commands_processed := commands_processed self + 1\<rparr>;
            self2 = update_monthly_stats
                     (\<lambda>b. b\<lparr>m_commands_processed := m_commands_processed b + 1\<rparr>) self1
        in (case func self2 sender message of
              Raise \<Rightarrow> (Raised, self2)
            | Return response \<Rightarrow>
                (Normal, if truthy response
                         then send_message sender (the response) self2
                         else self2))
      else handle_private_message rest self sender message)"

text \<open>\<open>handle_message\<close>, with the clock's month \<open>now\<close> as an argument.\<close>

definition handle_message :: "(string \<times> handler) list \<Rightarrow> string \<Rightarrow> bot \<Rightarrow> string \<Rightarrow> completion \<times> bot" where
  "handle_message cmds now self0 line =
     (let self = check_month_change now self0
      in if startswith line '':'' then
           let parts = py_split_max '' '' 2 line
           in if length parts \<ge> 3 then
                let sender = hd (py_split ''!'' (drop 1 (parts ! 0)));
                    command = parts ! 1;
                    message = (if startswith (parts ! 2) '':'' then drop 1 (parts ! 2)
                               else parts ! 2);
                    self1 = self\<lparr>messages_received := messages_received self + 1\<rparr>;
                    self2 = update_monthly_stats
                             (\<lambda>b. b\<lparr>m_messages_received := m_messages_received b + 1\<rparr>) self1
                in if command = ''PING'' then (Normal, send_raw (''PONG :'' @ message) self2)
                   else if command = ''PRIVMSG'' then
                     let target = (if contains (parts ! 2) '' :''
                                   then hd (py_split '' :'' (parts ! 2)) else parts ! 2);
                         actual_message = (if contains (parts ! 2) '' :''
                                           then py_split_max '' :'' 1 (parts ! 2) ! 1 else [])
                     in if target = channel self2
                        then handle_channel_message cmds self2 sender actual_message
                        else handle_private_message cmds self2 sender actual_message
                   else (Normal, self2)
              else (Normal, self)
         else if startswith line ''PING''
              then (Normal, send_raw (py_replace ''PING'' ''PONG'' line) self)
              else (Normal, self))"

section \<open>The receive loop\<close>

text \<open>
  The body of \<open>for line in lines\<close> in \<open>run\<close>. \<open>now\<close> is the clock's month while the line
  is handled and \<open>r\<close> the raw value of the random generator, should the line make the bot
  draw a nickname suffix. An exception leaves the body at once.
\<close>

definition process_line :: "(string \<times> handler) list \<Rightarrow> string \<Rightarrow> nat \<Rightarrow> bot \<Rightarrow> string \<Rightarrow> completion \<times> bot" where
  "process_line cmds now r self line =
     (if strip line \<noteq> [] then
        (case handle_message cmds now self line of
           (Raised, self1) \<Rightarrow> (Raised, self1)
         | (Normal, self1) \<Rightarrow>
             if contains line ''001'' then (Normal, join_channel (channel self1) self1)
             else if contains line ''433'' then
               (case randint r 1 999 of
                  None \<Rightarrow> (Raised, self1)
                | Some number \<Rightarrow>
                    let self2 = self1\<lparr>nickname := nickname self1 @ str_int number\<rparr>
                    in (Normal, send_raw (''NICK '' @ nickname self2) self2))
             else if contains line ''PING''
                  then (Normal, send_raw (py_replace ''PING'' ''PONG'' line) self1)
                  else (Normal, self1))
      else (Normal, self))"

text \<open>
  What the bot reads from outside while it handles the \<open>k\<close>-th line of the session: the
  month of the clock and the raw value of the random generator.
\<close>

record world =
  clock :: "nat \<Rightarrow> string"
  entropy :: "nat \<Rightarrow> nat"

fun process_lines :: "(string \<times> handler) list \<Rightarrow> world \<Rightarrow> nat \<Rightarrow> bot \<Rightarrow> string list \<Rightarrow> completion \<times> bot" where
  "process_lines cmds w k self [] = (Normal, self)"
| "process_lines cmds w k self (line # rest) =
     (case process_line cmds (clock w k) (entropy w k) self line of
        (Raised, self1) \<Rightarrow> (Raised, self1)
      | (Normal, self1) \<Rightarrow> process_lines cmds w (Suc k) self1 rest)"

text \<open>
  What \<open>self.socket.recv(1024).decode('utf-8')\<close> gives: decoded text (empty when the peer
  closed the connection), or an exception of the read or of the decoding.
\<close>

datatype recv_event = Data string | RecvError





text \<open>
  The \<open>while self.running\<close> loop of \<open>run\<close> over the events that the socket delivers.
  \<open>Some self\<close>: the loop was left, by \<open>break\<close>, by the loop condition or by an exception
  that the \<open>except\<close> clauses of \<open>run\<close> log. \<open>None\<close>: the events are used up and the loop
  waits in \<open>recv\<close>.
\<close>

fun recv_loop :: "(string \<times> handler) list \<Rightarrow> world \<Rightarrow> nat \<Rightarrow> bot \<Rightarrow> string \<Rightarrow> recv_event list \<Rightarrow> bot option" where
  "recv_loop cmds w k self buffer [] = (if running self then None else Some self)"
| "recv_loop cmds w k self buffer (RecvError # evs) = Some self"
| "recv_loop cmds w k self buffer (Data data # evs) =
     (if \<not> running self then Some self
      else if data = [] then Some self
      else
        let (lines, buffer') = feed buffer data
        in (case process_lines cmds w k self lines of
              (Raised, self1) \<Rightarrow> Some self1
            | (Normal, self1) \<Rightarrow> recv_loop cmds w (k + length lines) self1 buffer' evs))"

text \<open>
  The same loop, seen from inside: the number of lines handled, the bot and the buffer
  with which the loop waits in \<open>recv\<close> once the events are used up, or \<open>None\<close> when the loop
  was left before.
\<close>

fun recv_waiting :: "(string \<times> handler) list \<Rightarrow> world \<Rightarrow> nat \<Rightarrow> bot \<Rightarrow> string \<Rightarrow> recv_event list \<Rightarrow> (nat \<times> bot \<times> string) option" where
  "recv_waiting cmds w k self buffer [] = (if running self then Some (k, self, buffer) else None)"
| "recv_waiting cmds w k self buffer (RecvError # evs) = None"
| "recv_waiting cmds w k self buffer (Data data # evs) =
     (if \<not> running self then None
      else if data = [] then None
      else
        let (lines, buffer') = feed buffer data
        in (case process_lines cmds w k self lines of
              (Raised, self1) \<Rightarrow> None
            | (Normal, self1) \<Rightarrow> recv_waiting cmds w (k + length lines) self1 buffer' evs))"

text \<open>\<open>connect\<close>: \<open>ok\<close> says whether the socket could be opened and connected.\<close>

definition connect :: "bool \<Rightarrow> bot \<Rightarrow> bool \<times> bot" where
  "connect ok self =
     (if ok then
        let self1 = self\<lparr>has_socket := True\<rparr>;
            self2 = send_raw (''NICK '' @ nickname self1) self1;
            self3 = send_raw (''USER '' @ username self2 @ '' 0 * :'' @ realname self2) self2
        in (True, self3)
      else (False, self))"

definition cleanup :: "bot \<Rightarrow> bot" where
  "cleanup self =
     (let self1 = self\<lparr>running := False\<rparr>
      in if has_socket self1 then send_raw ''QUIT :PyIRCBot signing off!'' self1 else self1)"

text \<open>
  \<open>run\<close>. \<open>Some self\<close>: \<open>run\<close> returned, and with it \<open>main\<close> and the process. \<open>None\<close>: the
  bot still waits for input.
\<close>

definition run :: "(string \<times> handler) list \<Rightarrow> world \<Rightarrow> bool \<Rightarrow> bot \<Rightarrow> recv_event list \<Rightarrow> bot option" where
  "run cmds w ok self evs =
     (case connect ok self of
        (False, self1) \<Rightarrow> Some self1
      | (True, self1) \<Rightarrow>
          (case recv_loop cmds w 0 (self1\<lparr>running := True\<rparr>) [] evs of
             None \<Rightarrow> None
           | Some self2 \<Rightarrow> Some (cleanup self2)))"

text \<open>
  The states of the bot that a session can reach: the new object, and from there
  connecting, handling an inbound line, and cleaning up.
\<close>

inductive reachable :: "(string \<times> handler) list \<Rightarrow> bot \<Rightarrow> bool" for cmds where
  start: "reachable cmds (init_bot cfg month)"
| connected: "reachable cmds self \<Longrightarrow> reachable cmds ((snd (connect ok self))\<lparr>running := True\<rparr>)"
| line: "reachable cmds self \<Longrightarrow> reachable cmds (snd (process_line cmds now r self line))"
| stopped: "reachable cmds self \<Longrightarrow> reachable cmds (cleanup self)"

section \<open>Predicates and sample data for the properties\<close>

text \<open>The counters of a state: commands never exceed messages, in total and per month.\<close>

definition counters_ok :: "bot \<Rightarrow> bool" where
  "counters_ok self =
     (commands_processed self \<le> messages_received self \<and>
      (\<forall>m b. monthly_stats self m = Some b \<longrightarrow>
             m_commands_processed b \<le> m_messages_received b))"

text \<open>A state in which one more command may be counted.\<close>

definition counters_ahead :: "bot \<Rightarrow> bool" where
  "counters_ahead self =
     (commands_processed self + 1 \<le> messages_received self \<and>
      (\<forall>b. monthly_stats self (current_month self) = Some b \<longrightarrow>
           m_commands_processed b + 1 \<le> m_messages_received b) \<and>
      (\<forall>m b. monthly_stats self m = Some b \<longrightarrow>
             m_commands_processed b \<le> m_messages_received b))"

text \<open>What the two dispatch loops leave as it was.\<close>

definition same_but_commands :: "bot \<Rightarrow> bot \<Rightarrow> bool" where
  "same_but_commands self self' =
     (channel self' = channel self \<and> nickname self' = nickname self \<and>
      running self' = running self \<and> has_socket self' = has_socket self \<and>
      current_month self' = current_month self \<and>
      messages_received self' = messages_received self \<and>
      user_messages self' = user_messages self \<and>
      (\<forall>k. k \<noteq> current_month self \<longrightarrow> monthly_stats self' k = monthly_stats self k) \<and>
      map_option m_messages_received (monthly_stats self' (current_month self)) =
        map_option m_messages_received (monthly_stats self (current_month self)) \<and>
      map_option m_user_messages (monthly_stats self' (current_month self)) =
        map_option m_user_messages (monthly_stats self (current_month self)))"

text \<open>A configuration with a channel and a nickname, for the concrete instances below.\<close>

definition test_config :: config where
  "test_config = default_config\<lparr>IRC_CHANNEL := ''#chan'', BOT_NICKNAME := ''bot''\<rparr>"





section \<open>Properties of splitting\<close>










section \<open>Properties of framing\<close>





section \<open>Dispatch: the first matching command wins\<close>

lemma channel_commands_skip:
  "\<forall>(c, f) \<in> set pre. \<not> startswith message c \<Longrightarrow>
   channel_commands (pre @ rest) self sender message = channel_commands rest self sender message"
  by (induction pre) auto

lemma private_commands_skip:
  "\<forall>(c, f) \<in> set pre. \<not> startswith message c \<Longrightarrow>
   handle_private_message (pre @ rest) self sender message =
   handle_private_message rest self sender message"
  by (induction pre) auto

text \<open>
  Claim C4. The registry is scanned in registration order. When no entry before
  \<open>(cmd, func)\<close> has a prefix of the text as its key and \<open>cmd\<close> is a prefix of the text,
  then \<open>func\<close> is the handler that runs, whatever entries follow it and whether or not
  they match too: the command is counted once, \<open>func\<close> is called, and its reply, if any,
  is sent. When no entry matches, the state is unchanged: no reply, no change of the
  command counters. Both hold for channel messages and for private messages.
\<close>

theorem first_match_wins:
  "((\<forall>(c, f) \<in> set pre. \<not> startswith message c) \<and> startswith message cmd \<longrightarrow>
      channel_commands (pre @ (cmd, func) # post) self sender message =
        (let counted = update_monthly_stats
               (\<lambda>b. b\<lparr>m_commands_processed := m_commands_processed b + 1\<rparr>)
               (self\<lparr>commands_processed := commands_processed self + 1\<rparr>)
         in case func counted sender message of
              Raise \<Rightarrow> (Raised, counted)
            | Return response \<Rightarrow>
                (Normal, if truthy response
                         then send_message (channel counted) (the response) counted
                         else counted))
      \<and> handle_private_message (pre @ (cmd, func) # post) self sender message =
        (let counted = update_monthly_stats
               (\<lambda>b. b\<lparr>m_commands_processed := m_commands_processed b + 1\<rparr>)
               (self\<lparr>commands_processed := commands_processed self + 1\<rparr>)
         in case func counted sender message of
              Raise \<Rightarrow> (Raised, counted)
            | Return response \<Rightarrow>
                (Normal, if truthy response
                         then send_message sender (the response) counted
                         else counted)))
   \<and> ((\<forall>(c, f) \<in> set cmds. \<not> startswith message c) \<longrightarrow>
      channel_commands cmds self sender message = (Normal, self)
      \<and> handle_private_message cmds self sender message = (Normal, self))"
proof (intro conjI impI)
  assume h: "(\<forall>(c, f) \<in> set pre. \<not> startswith message c) \<and> startswith message cmd"
  then show "channel_commands (pre @ (cmd, func) # post) self sender message =
        (let counted = update_monthly_stats
               (\<lambda>b. b\<lparr>m_commands_processed := m_commands_processed b + 1\<rparr>)
               (self\<lparr>commands_processed := commands_processed self + 1\<rparr>)
         in case func counted sender message of
              Raise \<Rightarrow> (Raised, counted)
            | Return response \<Rightarrow>
                (Normal, if truthy response
                         then send_message (channel counted) (the response) counted
                         else counted))"
    by (simp add: channel_commands_skip)
  from h show "handle_private_message (pre @ (cmd, func) # post) self sender message =
        (let counted = update_monthly_stats
               (\<lambda>b. b\<lparr>m_commands_processed := m_commands_processed b + 1\<rparr>)
               (self\<lparr>commands_processed := commands_processed self + 1\<rparr>)
         in case func counted sender message of
              Raise \<Rightarrow> (Raised, counted)
            | Return response \<Rightarrow>
                (Normal, if truthy response
                         then send_message sender (the response) counted
                         else counted))"
    by (simp add: private_commands_skip)
next
  assume h: "\<forall>(c, f) \<in> set cmds. \<not> startswith message c"
  from channel_commands_skip[OF h, of "[]"]
  show "channel_commands cmds self sender message = (Normal, self)" by simp
  from private_commands_skip[OF h, of "[]"]
  show "handle_private_message cmds self sender message = (Normal, self)" by simp
qed

theorem first_match_wins_witness:
  "fst (channel_commands [(''.help'', cmd_help), (''.ping'', cmd_ping), (''.ping2'', cmd_help)]
          (init_bot test_config ''01-2025'') ''nick'' ''.ping2 x'') = Normal
   \<and> sent (snd (channel_commands [(''.help'', cmd_help), (''.ping'', cmd_ping), (''.ping2'', cmd_help)]
          (init_bot test_config ''01-2025'') ''nick'' ''.ping2 x''))
       = [''PRIVMSG #chan :Pong! Hello nick!'']
   \<and> sent (snd (handle_private_message [(''.help'', cmd_help), (''.ping'', cmd_ping), (''.ping2'', cmd_help)]
          (init_bot test_config ''01-2025'') ''nick'' ''.ping2 x''))
       = [''PRIVMSG nick :Pong! Hello nick!'']
   \<and> channel_commands [(''.help'', cmd_help), (''.time'', cmd_ping)]
          (init_bot test_config ''01-2025'') ''nick'' ''.ping2 x''
       = (Normal, init_bot test_config ''01-2025'')
   \<and> handle_private_message [(''.help'', cmd_help), (''.time'', cmd_ping)]
          (init_bot test_config ''01-2025'') ''nick'' ''.ping2 x''
       = (Normal, init_bot test_config ''01-2025'')"
proof -
  have pre: "\<forall>(c, f) \<in> set [(''.help'', cmd_help)]. \<not> startswith ''.ping2 x'' c"
    by (simp add: startswith_def)
  have hit: "startswith ''.ping2 x'' ''.ping''"
    by (simp add: startswith_def)
  have none: "\<forall>(c, f) \<in> set [(''.help'', cmd_help), (''.time'', cmd_ping)].
      \<not> startswith ''.ping2 x'' c"
    by (simp add: startswith_def)
  from pre hit none
    first_match_wins[of "[(''.help'', cmd_help)]" "''.ping2 x''" "''.ping''" cmd_ping
      "[(''.ping2'', cmd_help)]" "init_bot test_config ''01-2025''" "''nick''"
      "[(''.help'', cmd_help), (''.time'', cmd_ping)]"]
  show ?thesis
    by (simp add: Let_def cmd_ping_def truthy_def send_message_def send_raw_def
        update_monthly_stats_def init_bot_def test_config_def default_config_def)
qed

text \<open>
  With the registry of the bot, whatever the handlers outside the model do: the channel
  message \<open>.ping\<close> from \<open>nick\<close> is answered with \<open>Pong! Hello nick!\<close> on the channel.
\<close>

lemma ping_end_to_end:
  "fst (process_line (commands ext) ''01-2025'' r (init_bot test_config ''01-2025'')
     '':nick!u@h PRIVMSG #chan :.ping'') = Normal
   \<and> sent (snd (process_line (commands ext) ''01-2025'' r (init_bot test_config ''01-2025'')
     '':nick!u@h PRIVMSG #chan :.ping'')) = [''PRIVMSG #chan :Pong! Hello nick!'']"
  by code_simp

section \<open>Commands never outnumber messages\<close>

lemma channel_commands_cases:
  "channel_commands cmds self sender message = (c, self') \<Longrightarrow>
   self' = self \<or>
   (let counted = update_monthly_stats
          (\<lambda>b. b\<lparr>m_commands_processed := m_commands_processed b + 1\<rparr>)
          (self\<lparr>commands_processed := commands_processed self + 1\<rparr>)
    in self' = counted \<or> (\<exists>target text. self' = send_message target text counted))"
proof (induction cmds)
  case Nil
  then show ?case by simp
next
  case (Cons e cmds)
  obtain cmd func where e: "e = (cmd, func)" by (cases e)
  show ?case
  proof (cases "startswith message cmd")
    case True
    with Cons.prems e show ?thesis
      by (auto simp: Let_def split: hresult.splits if_splits)
  next
    case False
    with Cons e show ?thesis by simp
  qed
qed

lemma private_commands_cases:
  "handle_private_message cmds self sender message = (c, self') \<Longrightarrow>
   self' = self \<or>
   (let counted = update_monthly_stats
          (\<lambda>b. b\<lparr>m_commands_processed := m_commands_processed b + 1\<rparr>)
          (self\<lparr>commands_processed := commands_processed self + 1\<rparr>)
    in self' = counted \<or> (\<exists>target text. self' = send_message target text counted))"
proof (induction cmds)
  case Nil
  then show ?case by simp
next
  case (Cons e cmds)
  obtain cmd func where e: "e = (cmd, func)" by (cases e)
  show ?case
  proof (cases "startswith message cmd")
    case True
    with Cons.prems e show ?thesis
      by (auto simp: Let_def split: hresult.splits if_splits)
  next
    case False
    with Cons e show ?thesis by simp
  qed
qed

lemma counters_ok_send_raw [simp]: "counters_ok (send_raw t self) = counters_ok self"
  by (simp add: counters_ok_def send_raw_def)

lemma counters_ok_send_message [simp]: "counters_ok (send_message tg t self) = counters_ok self"
  by (simp add: send_message_def)

lemma counters_ahead_ok: "counters_ahead self \<Longrightarrow> counters_ok self"
  by (simp add: counters_ahead_def counters_ok_def)

lemma counters_ahead_counted:
  "counters_ahead self \<Longrightarrow>
   counters_ok (update_monthly_stats
          (\<lambda>b. b\<lparr>m_commands_processed := m_commands_processed b + 1\<rparr>)
          (self\<lparr>commands_processed := commands_processed self + 1\<rparr>))"
  by (auto simp: counters_ahead_def counters_ok_def update_monthly_stats_def
      split: option.splits if_splits)

lemma counters_ok_check_month_change:
  "counters_ok self \<Longrightarrow> counters_ok (check_month_change now self)"
  by (auto simp: counters_ok_def check_month_change_def Let_def empty_bucket_def split: if_splits)

lemma counters_ahead_received:
  "counters_ok self \<Longrightarrow>
   counters_ahead (update_monthly_stats
          (\<lambda>b. b\<lparr>m_messages_received := m_messages_received b + 1\<rparr>)
          (self\<lparr>messages_received := messages_received self + 1\<rparr>))"
  by (fastforce simp: counters_ahead_def counters_ok_def update_monthly_stats_def
      split: option.splits if_splits)

lemma counters_ahead_tally:
  "counters_ahead self \<Longrightarrow>
   counters_ahead (update_monthly_stats
          (\<lambda>b. b\<lparr>m_user_messages := bump (m_user_messages b) sender\<rparr>)
          (self\<lparr>user_messages := bump (user_messages self) sender\<rparr>))"
  by (auto simp: counters_ahead_def update_monthly_stats_def
      split: option.splits if_splits)

lemma counters_ok_channel_commands:
  assumes "counters_ahead self" and "channel_commands cmds self sender message = (c, self')"
  shows "counters_ok self'"
  using channel_commands_cases[OF assms(2)] counters_ahead_ok[OF assms(1)]
    counters_ahead_counted[OF assms(1)]
  by (auto simp: Let_def)

lemma counters_ok_private_commands:
  assumes "counters_ahead self" and "handle_private_message cmds self sender message = (c, self')"
  shows "counters_ok self'"
  using private_commands_cases[OF assms(2)] counters_ahead_ok[OF assms(1)]
    counters_ahead_counted[OF assms(1)]
  by (auto simp: Let_def)

lemma counters_ok_handle_message:
  assumes ok: "counters_ok self" and h: "handle_message cmds now self line = (c, self')"
  shows "counters_ok self'"
proof -
  let ?s0 = "check_month_change now self"
  let ?s2 = "update_monthly_stats
          (\<lambda>b. b\<lparr>m_messages_received := m_messages_received b + 1\<rparr>)
          (?s0\<lparr>messages_received := messages_received ?s0 + 1\<rparr>)"
  have ok0: "counters_ok ?s0" by (rule counters_ok_check_month_change[OF ok])
  have ahead: "counters_ahead ?s2" by (rule counters_ahead_received[OF ok0])
  note ok2 = counters_ahead_ok[OF ahead]
  from h ok0 ok2 ahead show ?thesis
    by (auto simp: handle_message_def Let_def handle_channel_message_def
        split: if_splits
        dest: counters_ok_private_commands[OF ahead]
              counters_ok_channel_commands[OF counters_ahead_tally[OF ahead]])
qed

lemma counters_ok_process_line:
  assumes ok: "counters_ok self"
  shows "counters_ok (snd (process_line cmds now r self line))"
proof (cases "handle_message cmds now self line")
  case (Pair c s1)
  have ok1: "counters_ok s1" by (rule counters_ok_handle_message[OF ok Pair])
  then have ok2: "\<And>n. counters_ok (s1\<lparr>nickname := n\<rparr>)" by (simp add: counters_ok_def)
  from ok ok1 ok2 Pair show ?thesis
    by (cases c) (auto simp: process_line_def join_channel_def Let_def split: option.splits)
qed

lemma counters_ok_reachable: "reachable cmds self \<Longrightarrow> counters_ok self"
proof (induction rule: reachable.induct)
  case (start cfg month)
  show ?case by (simp add: counters_ok_def init_bot_def empty_bucket_def)
next
  case (connected self ok)
  then show ?case by (simp add: counters_ok_def connect_def send_raw_def Let_def)
next
  case (line self now r line)
  then show ?case by (simp add: counters_ok_process_line)
next
  case (stopped self)
  then show ?case by (simp add: counters_ok_def cleanup_def send_raw_def Let_def)
qed

text \<open>Every state that \<open>run\<close> returns is one of the reachable states.\<close>

lemma process_lines_reachable:
  "reachable cmds self \<Longrightarrow> reachable cmds (snd (process_lines cmds w k self lines))"
proof (induction lines arbitrary: self k)
  case Nil
  then show ?case by simp
next
  case (Cons l lines)
  obtain c s1 where p: "process_line cmds (clock w k) (entropy w k) self l = (c, s1)"
    by (cases "process_line cmds (clock w k) (entropy w k) self l")
  have r1: "reachable cmds s1"
    using reachable.line[OF Cons.prems, of "clock w k" "entropy w k" l] p by simp
  show ?case
  proof (cases c)
    case Normal
    with p Cons.IH[OF r1, of "Suc k"] show ?thesis by simp
  next
    case Raised
    with p r1 show ?thesis by simp
  qed
qed

lemma recv_loop_reachable:
  "reachable cmds self \<Longrightarrow> recv_loop cmds w k self buffer evs = Some final \<Longrightarrow>
   reachable cmds final"
proof (induction evs arbitrary: self k buffer)
  case Nil
  then show ?case by (simp split: if_splits)
next
  case (Cons e evs)
  show ?case
  proof (cases e)
    case RecvError
    with Cons.prems show ?thesis by simp
  next
    case (Data data)
    show ?thesis
    proof (cases "\<not> running self \<or> data = []")
      case True
      with Cons.prems Data show ?thesis by (auto split: if_splits)
    next
      case False
      obtain ls b' where f: "feed buffer data = (ls, b')" by (cases "feed buffer data")
      obtain c s1 where p: "process_lines cmds w k self ls = (c, s1)"
        by (cases "process_lines cmds w k self ls")
      have r1: "reachable cmds s1"
        using process_lines_reachable[OF Cons.prems(1), of w k ls] p by simp
      show ?thesis
      proof (cases c)
        case Normal
        with Cons.prems(2) Data False f p
        have "recv_loop cmds w (k + length ls) s1 b' evs = Some final" by simp
        with Cons.IH[OF r1] show ?thesis .
      next
        case Raised
        with Cons.prems(2) Data False f p r1 show ?thesis by simp
      qed
    qed
  qed
qed

lemma run_reachable:
  assumes "run cmds w ok (init_bot cfg month) evs = Some final"
  shows "reachable cmds final"
proof (cases ok)
  case False
  with assms have "final = init_bot cfg month" by (simp add: run_def connect_def)
  then show ?thesis by (simp add: reachable.start)
next
  case True
  let ?sc = "(snd (connect True (init_bot cfg month)))\<lparr>running := True\<rparr>"
  have rc: "reachable cmds ?sc" by (rule reachable.connected[OF reachable.start])
  from assms True obtain s1 where l: "recv_loop cmds w 0 ?sc [] evs = Some s1"
    and f: "final = cleanup s1"
    by (auto simp: run_def connect_def Let_def split: option.splits)
  from recv_loop_reachable[OF rc l] f show ?thesis by (simp add: reachable.stopped)
qed

text \<open>
  Claim C6. In every state that a session reaches, whatever lines were processed and
  whatever the clock showed, the messages received are at least the commands processed:
  for the all-time counters and for the bucket of every month.
\<close>

theorem messages_bound_commands:
  "reachable cmds self \<Longrightarrow>
   commands_processed self \<le> messages_received self \<and>
   (\<forall>m b. monthly_stats self m = Some b \<longrightarrow>
          m_commands_processed b \<le> m_messages_received b)"
  using counters_ok_reachable[of cmds self] by (simp add: counters_ok_def)

theorem messages_bound_commands_witness:
  "reachable [(''.ping'', cmd_ping)]
     (snd (process_line [(''.ping'', cmd_ping)] ''01-2025'' 0
             (init_bot test_config ''01-2025'') '':nick!u@h PRIVMSG #chan :.ping''))
   \<and> commands_processed
        (snd (process_line [(''.ping'', cmd_ping)] ''01-2025'' 0
                (init_bot test_config ''01-2025'') '':nick!u@h PRIVMSG #chan :.ping''))
     \<le> messages_received
        (snd (process_line [(''.ping'', cmd_ping)] ''01-2025'' 0
                (init_bot test_config ''01-2025'') '':nick!u@h PRIVMSG #chan :.ping''))
   \<and> commands_processed
        (snd (process_line [(''.ping'', cmd_ping)] ''01-2025'' 0
                (init_bot test_config ''01-2025'') '':nick!u@h PRIVMSG #chan :.ping'')) = 1"
proof -
  let ?s = "snd (process_line [(''.ping'', cmd_ping)] ''01-2025'' 0
             (init_bot test_config ''01-2025'') '':nick!u@h PRIVMSG #chan :.ping'')"
  have r: "reachable [(''.ping'', cmd_ping)] ?s"
    by (rule reachable.line[OF reachable.start])
  have one: "commands_processed ?s = 1" by code_simp
  from r one messages_bound_commands[OF r] show ?thesis by simp
qed

section \<open>Accounting of messages\<close>

lemma update_monthly_stats_fields:
  "channel (update_monthly_stats f self) = channel self"
  "nickname (update_monthly_stats f self) = nickname self"
  "running (update_monthly_stats f self) = running self"
  "has_socket (update_monthly_stats f self) = has_socket self"
  "current_month (update_monthly_stats f self) = current_month self"
  "messages_received (update_monthly_stats f self) = messages_received self"
  "commands_processed (update_monthly_stats f self) = commands_processed self"
  "user_messages (update_monthly_stats f self) = user_messages self"
  "sent (update_monthly_stats f self) = sent self"
  by (simp_all add: update_monthly_stats_def split: option.splits)

lemma check_month_change_fields:
  "channel (check_month_change now self) = channel self"
  "nickname (check_month_change now self) = nickname self"
  "running (check_month_change now self) = running self"
  "has_socket (check_month_change now self) = has_socket self"
  "current_month (check_month_change now self) = now"
  "messages_received (check_month_change now self) = messages_received self"
  "commands_processed (check_month_change now self) = commands_processed self"
  "user_messages (check_month_change now self) = user_messages self"
  "sent (check_month_change now self) = sent self"
  by (simp_all add: check_month_change_def Let_def)

lemma send_raw_fields:
  "channel (send_raw t self) = channel self"
  "nickname (send_raw t self) = nickname self"
  "running (send_raw t self) = running self"
  "has_socket (send_raw t self) = has_socket self"
  "current_month (send_raw t self) = current_month self"
  "messages_received (send_raw t self) = messages_received self"
  "commands_processed (send_raw t self) = commands_processed self"
  "user_messages (send_raw t self) = user_messages self"
  "monthly_stats (send_raw t self) = monthly_stats self"
  "sent (send_raw t self) = sent self @ [t]"
  by (simp_all add: send_raw_def)

lemmas fields = update_monthly_stats_fields check_month_change_fields send_raw_fields

lemma handle_message_privmsg:
  assumes "startswith line '':''"
    and "py_split_max '' '' 2 line = [origin, ''PRIVMSG'', rest]"
  shows "handle_message cmds now self line =
     (let self0 = check_month_change now self;
          self2 = update_monthly_stats
                   (\<lambda>b. b\<lparr>m_messages_received := m_messages_received b + 1\<rparr>)
                   (self0\<lparr>messages_received := messages_received self0 + 1\<rparr>);
          sender = hd (py_split ''!'' (drop 1 origin));
          target = (if contains rest '' :'' then hd (py_split '' :'' rest) else rest);
          text = (if contains rest '' :'' then py_split_max '' :'' 1 rest ! 1 else [])
      in if target = channel self
         then handle_channel_message cmds self2 sender text
         else handle_private_message cmds self2 sender text)"
  using assms
  by (auto simp: handle_message_def Let_def fields)

lemma same_but_commands_refl: "same_but_commands self self"
  by (simp add: same_but_commands_def)

lemma same_but_commands_counted:
  "same_but_commands self (update_monthly_stats
          (\<lambda>b. b\<lparr>m_commands_processed := m_commands_processed b + 1\<rparr>)
          (self\<lparr>commands_processed := commands_processed self + 1\<rparr>))"
  by (simp add: same_but_commands_def fields update_monthly_stats_def split: option.splits)

lemma same_but_commands_sent:
  "same_but_commands self self1 \<Longrightarrow> same_but_commands self (send_message target text self1)"
  by (simp add: same_but_commands_def send_message_def fields)

lemma channel_commands_same:
  "channel_commands cmds self sender message = (c, self') \<Longrightarrow> same_but_commands self self'"
  using channel_commands_cases[of cmds self sender message c self']
  by (auto simp: Let_def same_but_commands_refl same_but_commands_counted
      intro: same_but_commands_sent[OF same_but_commands_counted])

lemma private_commands_same:
  "handle_private_message cmds self sender message = (c, self') \<Longrightarrow> same_but_commands self self'"
  using private_commands_cases[of cmds self sender message c self']
  by (auto simp: Let_def same_but_commands_refl same_but_commands_counted
      intro: same_but_commands_sent[OF same_but_commands_counted])

lemma channel_commands_count:
  "channel_commands cmds self sender message = (c, self') \<Longrightarrow>
   commands_processed self' =
     commands_processed self + (if \<exists>(k, f) \<in> set cmds. startswith message k then 1 else 0)
   \<and> m_commands_processed (get_monthly_stats self') =
     m_commands_processed (get_monthly_stats self)
       + (if (\<exists>(k, f) \<in> set cmds. startswith message k)
             \<and> monthly_stats self (current_month self) \<noteq> None then 1 else 0)"
proof (induction cmds)
  case Nil
  then show ?case by simp
next
  case (Cons e cmds)
  obtain cmd func where e: "e = (cmd, func)" by (cases e)
  show ?case
  proof (cases "startswith message cmd")
    case True
    with Cons.prems e show ?thesis
      by (auto simp: Let_def update_monthly_stats_def get_monthly_stats_def send_message_def
          send_raw_def split: hresult.splits if_splits option.splits)
  next
    case False
    with Cons e show ?thesis by simp
  qed
qed

lemma private_commands_count:
  "handle_private_message cmds self sender message = (c, self') \<Longrightarrow>
   commands_processed self' =
     commands_processed self + (if \<exists>(k, f) \<in> set cmds. startswith message k then 1 else 0)
   \<and> m_commands_processed (get_monthly_stats self') =
     m_commands_processed (get_monthly_stats self)
       + (if (\<exists>(k, f) \<in> set cmds. startswith message k)
             \<and> monthly_stats self (current_month self) \<noteq> None then 1 else 0)"
proof (induction cmds)
  case Nil
  then show ?case by simp
next
  case (Cons e cmds)
  obtain cmd func where e: "e = (cmd, func)" by (cases e)
  show ?case
  proof (cases "startswith message cmd")
    case True
    with Cons.prems e show ?thesis
      by (auto simp: Let_def update_monthly_stats_def get_monthly_stats_def send_message_def
          send_raw_def split: hresult.splits if_splits option.splits)
  next
    case False
    with Cons e show ?thesis by simp
  qed
qed

lemma has_bucket_check_month_change:
  "monthly_stats self (current_month self) \<noteq> None \<Longrightarrow>
   monthly_stats (check_month_change now self) now \<noteq> None"
  by (auto simp: check_month_change_def Let_def)

lemma monthly_update_monthly_stats:
  "monthly_stats (update_monthly_stats f self) k =
     (if k = current_month self then map_option f (monthly_stats self k) else monthly_stats self k)"
  by (simp add: update_monthly_stats_def split: option.splits)

lemma get_monthly_stats_update:
  "monthly_stats self (current_month self) \<noteq> None \<Longrightarrow>
   get_monthly_stats (update_monthly_stats f self) = f (get_monthly_stats self)"
  by (auto simp: get_monthly_stats_def update_monthly_stats_def split: option.splits)

lemma get_monthly_stats_fields [simp]:
  "get_monthly_stats (self\<lparr>messages_received := x\<rparr>) = get_monthly_stats self"
  "get_monthly_stats (self\<lparr>user_messages := y\<rparr>) = get_monthly_stats self"
  "get_monthly_stats (self\<lparr>commands_processed := z\<rparr>) = get_monthly_stats self"
  by (simp_all add: get_monthly_stats_def)

lemma same_but_commands_bucket:
  assumes "same_but_commands self self'"
  shows "m_messages_received (get_monthly_stats self') = m_messages_received (get_monthly_stats self)"
    and "m_user_messages (get_monthly_stats self') = m_user_messages (get_monthly_stats self)"
    and "(monthly_stats self' (current_month self') = None) =
         (monthly_stats self (current_month self) = None)"
proof -
  from assms have cm: "current_month self' = current_month self"
    and a: "map_option m_messages_received (monthly_stats self' (current_month self)) =
        map_option m_messages_received (monthly_stats self (current_month self))"
    and b: "map_option m_user_messages (monthly_stats self' (current_month self)) =
        map_option m_user_messages (monthly_stats self (current_month self))"
    by (simp_all add: same_but_commands_def)
  from a cm show "m_messages_received (get_monthly_stats self') =
      m_messages_received (get_monthly_stats self)"
    by (cases "monthly_stats self' (current_month self)";
        cases "monthly_stats self (current_month self)")
       (simp_all add: get_monthly_stats_def)
  from b cm show "m_user_messages (get_monthly_stats self') =
      m_user_messages (get_monthly_stats self)"
    by (cases "monthly_stats self' (current_month self)";
        cases "monthly_stats self (current_month self)")
       (simp_all add: get_monthly_stats_def)
  from a cm show "(monthly_stats self' (current_month self') = None) =
         (monthly_stats self (current_month self) = None)"
    by (cases "monthly_stats self' (current_month self)";
        cases "monthly_stats self (current_month self)") simp_all
qed

lemma has_bucket_handle_message:
  assumes hb: "monthly_stats self (current_month self) \<noteq> None"
    and h: "handle_message cmds now self line = (c, self')"
  shows "monthly_stats self' (current_month self') \<noteq> None"
proof -
  let ?s0 = "check_month_change now self"
  let ?s2 = "update_monthly_stats
          (\<lambda>b. b\<lparr>m_messages_received := m_messages_received b + 1\<rparr>)
          (?s0\<lparr>messages_received := messages_received ?s0 + 1\<rparr>)"
  let ?s3 = "\<lambda>sender. update_monthly_stats
          (\<lambda>b. b\<lparr>m_user_messages := bump (m_user_messages b) sender\<rparr>)
          (?s2\<lparr>user_messages := bump (user_messages ?s2) sender\<rparr>)"
  have b0: "monthly_stats ?s0 (current_month ?s0) \<noteq> None"
    using has_bucket_check_month_change[OF hb] by (simp add: fields)
  then have b2: "monthly_stats ?s2 (current_month ?s2) \<noteq> None"
    by (simp add: monthly_update_monthly_stats fields)
  then have b3: "\<And>sender. monthly_stats (?s3 sender) (current_month (?s3 sender)) \<noteq> None"
    by (simp add: monthly_update_monthly_stats fields)
  have ch: "monthly_stats self' (current_month self') \<noteq> None"
    if "channel_commands cmds (?s3 sender) sender msg = (c, self')" for sender msg
    using same_but_commands_bucket(3)[OF channel_commands_same[OF that]] b3[of sender] by simp
  have pr: "monthly_stats self' (current_month self') \<noteq> None"
    if "handle_private_message cmds ?s2 sender msg = (c, self')" for sender msg
    using same_but_commands_bucket(3)[OF private_commands_same[OF that]] b2 by simp
  have sr: "monthly_stats (send_raw t s) (current_month (send_raw t s)) =
      monthly_stats s (current_month s)" for t s
    by (simp add: send_raw_def)
  from h b0 b2 show ?thesis
    by (auto simp: handle_message_def Let_def handle_channel_message_def sr
        split: if_splits dest: ch pr)
qed

lemma has_bucket_process_line:
  assumes hb: "monthly_stats self (current_month self) \<noteq> None"
  shows "monthly_stats (snd (process_line cmds now r self line))
           (current_month (snd (process_line cmds now r self line))) \<noteq> None"
proof (cases "handle_message cmds now self line")
  case (Pair c s1)
  have "monthly_stats s1 (current_month s1) \<noteq> None"
    by (rule has_bucket_handle_message[OF hb Pair])
  with hb Pair show ?thesis
    by (cases c) (auto simp: process_line_def join_channel_def send_raw_def Let_def
        split: option.splits)
qed

lemma has_bucket_reachable:
  "reachable cmds self \<Longrightarrow> monthly_stats self (current_month self) \<noteq> None"
proof (induction rule: reachable.induct)
  case (start cfg month)
  show ?case by (simp add: init_bot_def)
next
  case (connected self ok)
  then show ?case by (simp add: connect_def send_raw_def Let_def)
next
  case (line self now r line)
  from line.IH show ?case by (rule has_bucket_process_line)
next
  case (stopped self)
  then show ?case by (simp add: cleanup_def send_raw_def Let_def)
qed

lemma bump_eq: "bump tally sender = tally(sender \<mapsto> (case tally sender of None \<Rightarrow> 1 | Some n \<Rightarrow> n + 1))"
  by (auto simp: bump_def Let_def split: option.splits)

lemma privmsg_effect:
  assumes b0: "monthly_stats (check_month_change now self) now = Some b0"
    and p1: "startswith line '':''"
    and p2: "py_split_max '' '' 2 line = [origin, ''PRIVMSG'', rest]"
    and h: "handle_message cmds now self line = (c, self')"
    and sd: "sender = hd (py_split ''!'' (drop 1 origin))"
    and tg: "target = (if contains rest '' :'' then hd (py_split '' :'' rest) else rest)"
    and bd: "body = (if contains rest '' :'' then py_split_max '' :'' 1 rest ! 1 else [])"
    and mt: "matched = (\<exists>(k, f) \<in> set cmds. startswith body k)"
  shows "messages_received self' = messages_received self + 1"
    and "commands_processed self' = commands_processed self + (if matched then 1 else 0)"
    and "user_messages self' =
           (if target = channel self then bump (user_messages self) sender else user_messages self)"
    and "current_month self' = now"
    and "monthly_stats self' now \<noteq> None"
    and "m_messages_received (get_monthly_stats self') = m_messages_received b0 + 1"
    and "m_commands_processed (get_monthly_stats self') =
           m_commands_processed b0 + (if matched then 1 else 0)"
    and "m_user_messages (get_monthly_stats self') =
           (if target = channel self then bump (m_user_messages b0) sender else m_user_messages b0)"
    and "\<forall>k. k \<noteq> now \<longrightarrow> monthly_stats self' k = monthly_stats (check_month_change now self) k"
    and "target = channel self \<longrightarrow>
           (\<exists>counted. handle_message cmds now self line = channel_commands cmds counted sender body
              \<and> messages_received counted = messages_received self + 1
              \<and> commands_processed counted = commands_processed self
              \<and> user_messages counted = bump (user_messages self) sender
              \<and> m_messages_received (get_monthly_stats counted) = m_messages_received b0 + 1
              \<and> m_user_messages (get_monthly_stats counted) = bump (m_user_messages b0) sender)"
proof -
  define s0 where "s0 = check_month_change now self"
  define s2 where "s2 = update_monthly_stats
          (\<lambda>b. b\<lparr>m_messages_received := m_messages_received b + 1\<rparr>)
          (s0\<lparr>messages_received := messages_received s0 + 1\<rparr>)"
  define s3 where "s3 = update_monthly_stats
          (\<lambda>b. b\<lparr>m_user_messages := bump (m_user_messages b) sender\<rparr>)
          (s2\<lparr>user_messages := bump (user_messages s2) sender\<rparr>)"
  have s0: "current_month s0 = now" "messages_received s0 = messages_received self"
    "commands_processed s0 = commands_processed self" "user_messages s0 = user_messages self"
    "channel s0 = channel self" "monthly_stats s0 now = Some b0"
    using b0 by (simp_all add: s0_def fields)
  have s2: "current_month s2 = now" "messages_received s2 = messages_received self + 1"
    "commands_processed s2 = commands_processed self" "user_messages s2 = user_messages self"
    "channel s2 = channel self"
    "monthly_stats s2 now = Some (b0\<lparr>m_messages_received := m_messages_received b0 + 1\<rparr>)"
    "\<forall>k. k \<noteq> now \<longrightarrow> monthly_stats s2 k = monthly_stats s0 k"
    using s0 by (simp_all add: s2_def fields monthly_update_monthly_stats)
  have s3: "current_month s3 = now" "messages_received s3 = messages_received self + 1"
    "commands_processed s3 = commands_processed self"
    "user_messages s3 = bump (user_messages self) sender"
    "channel s3 = channel self"
    "monthly_stats s3 now = Some (b0\<lparr>m_messages_received := m_messages_received b0 + 1,
        m_user_messages := bump (m_user_messages b0) sender\<rparr>)"
    "\<forall>k. k \<noteq> now \<longrightarrow> monthly_stats s3 k = monthly_stats s0 k"
    using s2 by (simp_all add: s3_def fields monthly_update_monthly_stats)
  have g2: "get_monthly_stats s2 = b0\<lparr>m_messages_received := m_messages_received b0 + 1\<rparr>"
    using s2 by (simp add: get_monthly_stats_def)
  have g3: "get_monthly_stats s3 = b0\<lparr>m_messages_received := m_messages_received b0 + 1,
        m_user_messages := bump (m_user_messages b0) sender\<rparr>"
    using s3 by (simp add: get_monthly_stats_def)
  have hm: "handle_message cmds now self line =
      (if target = channel self then channel_commands cmds s3 sender body
       else handle_private_message cmds s2 sender body)"
    using handle_message_privmsg[OF p1 p2, of cmds now self]
    by (simp add: Let_def s0_def s2_def s3_def sd tg bd handle_channel_message_def)
  define sx where "sx = (if target = channel self then s3 else s2)"
  have same: "same_but_commands sx self'"
    using h hm channel_commands_same[of cmds s3 sender body c self']
      private_commands_same[of cmds s2 sender body c self']
    by (simp add: sx_def split: if_splits)
  have cnt: "commands_processed self' = commands_processed sx + (if matched then 1 else 0)
     \<and> m_commands_processed (get_monthly_stats self') =
         m_commands_processed (get_monthly_stats sx) + (if matched then 1 else 0)"
    using h hm channel_commands_count[of cmds s3 sender body c self']
      private_commands_count[of cmds s2 sender body c self'] s2 s3
    by (simp add: sx_def mt split: if_splits)
  have sx: "current_month sx = now" "messages_received sx = messages_received self + 1"
    "commands_processed sx = commands_processed self"
    "user_messages sx =
       (if target = channel self then bump (user_messages self) sender else user_messages self)"
    "monthly_stats sx now \<noteq> None"
    "\<forall>k. k \<noteq> now \<longrightarrow> monthly_stats sx k = monthly_stats s0 k"
    "m_messages_received (get_monthly_stats sx) = m_messages_received b0 + 1"
    "m_commands_processed (get_monthly_stats sx) = m_commands_processed b0"
    "m_user_messages (get_monthly_stats sx) =
       (if target = channel self then bump (m_user_messages b0) sender else m_user_messages b0)"
    using s2 s3 g2 g3 by (simp_all add: sx_def)
  from same sx show "messages_received self' = messages_received self + 1"
    by (simp add: same_but_commands_def)
  from cnt sx show "commands_processed self' = commands_processed self + (if matched then 1 else 0)"
    by simp
  from same sx show "user_messages self' =
      (if target = channel self then bump (user_messages self) sender else user_messages self)"
    by (simp add: same_but_commands_def)
  from same sx show cm: "current_month self' = now"
    by (simp add: same_but_commands_def)
  from same_but_commands_bucket(3)[OF same] sx cm show "monthly_stats self' now \<noteq> None"
    by simp
  from same_but_commands_bucket(1)[OF same] sx
  show "m_messages_received (get_monthly_stats self') = m_messages_received b0 + 1"
    by simp
  from cnt sx show "m_commands_processed (get_monthly_stats self') =
      m_commands_processed b0 + (if matched then 1 else 0)"
    by simp
  from same_but_commands_bucket(2)[OF same] sx
  show "m_user_messages (get_monthly_stats self') =
      (if target = channel self then bump (m_user_messages b0) sender else m_user_messages b0)"
    by simp
  from same sx show "\<forall>k. k \<noteq> now \<longrightarrow> monthly_stats self' k = monthly_stats (check_month_change now self) k"
    by (simp add: same_but_commands_def s0_def)
  show "target = channel self \<longrightarrow>
           (\<exists>counted. handle_message cmds now self line = channel_commands cmds counted sender body
              \<and> messages_received counted = messages_received self + 1
              \<and> commands_processed counted = commands_processed self
              \<and> user_messages counted = bump (user_messages self) sender
              \<and> m_messages_received (get_monthly_stats counted) = m_messages_received b0 + 1
              \<and> m_user_messages (get_monthly_stats counted) = bump (m_user_messages b0) sender)"
  proof
    assume t: "target = channel self"
    from t hm s3 g3 show "\<exists>counted. handle_message cmds now self line = channel_commands cmds counted sender body
              \<and> messages_received counted = messages_received self + 1
              \<and> commands_processed counted = commands_processed self
              \<and> user_messages counted = bump (user_messages self) sender
              \<and> m_messages_received (get_monthly_stats counted) = m_messages_received b0 + 1
              \<and> m_user_messages (get_monthly_stats counted) = bump (m_user_messages b0) sender"
      by (intro exI[of _ s3]) simp
  qed
qed

text \<open>
  Claim C5, as amended. Take a \<open>PRIVMSG\<close> line with an origin, handled in a reachable
  state. The all-time and the current-month \<open>messages_received\<close> go up by one whether the
  target is the configured channel or not, so a direct message is counted as a received
  message too. The command counters go up by one exactly when a command matches the
  text. For a channel message the tallies of the sender, all-time and current-month, go
  up by one, and they do so before the registry is scanned: dispatch starts from a state
  that already holds the new counts, whether or not a command matches. For a direct
  message the tallies do not change.
\<close>

theorem privmsg_accounting:
  assumes r: "reachable cmds self"
    and p1: "startswith line '':''"
    and p2: "py_split_max '' '' 2 line = [origin, ''PRIVMSG'', rest]"
    and sd: "sender = hd (py_split ''!'' (drop 1 origin))"
    and tg: "target = (if contains rest '' :'' then hd (py_split '' :'' rest) else rest)"
    and bd: "body = (if contains rest '' :'' then py_split_max '' :'' 1 rest ! 1 else [])"
    and mt: "matched = (\<exists>(k, f) \<in> set cmds. startswith body k)"
    and bf: "before = get_monthly_stats (check_month_change now self)"
    and h: "handle_message cmds now self line = (c, self')"
  shows "messages_received self' = messages_received self + 1
     \<and> m_messages_received (get_monthly_stats self') = m_messages_received before + 1
     \<and> commands_processed self' = commands_processed self + (if matched then 1 else 0)
     \<and> m_commands_processed (get_monthly_stats self') =
         m_commands_processed before + (if matched then 1 else 0)
     \<and> (target = channel self \<longrightarrow>
           user_messages self' = bump (user_messages self) sender
         \<and> m_user_messages (get_monthly_stats self') = bump (m_user_messages before) sender
         \<and> (\<exists>counted. handle_message cmds now self line =
                          channel_commands cmds counted sender body
              \<and> messages_received counted = messages_received self + 1
              \<and> commands_processed counted = commands_processed self
              \<and> user_messages counted = bump (user_messages self) sender
              \<and> m_messages_received (get_monthly_stats counted) = m_messages_received before + 1
              \<and> m_user_messages (get_monthly_stats counted) = bump (m_user_messages before) sender))
     \<and> (target \<noteq> channel self \<longrightarrow>
           user_messages self' = user_messages self
         \<and> m_user_messages (get_monthly_stats self') = m_user_messages before)"
proof -
  from has_bucket_check_month_change[OF has_bucket_reachable[OF r], of now]
  obtain b0 where b0: "monthly_stats (check_month_change now self) now = Some b0"
    by blast
  then have before: "before = b0"
    by (simp add: bf get_monthly_stats_def fields)
  note e = privmsg_effect[OF b0 p1 p2 h sd tg bd mt]
  from e(1,2,3,6,7,8,10) show ?thesis
    by (simp add: before)
qed

theorem privmsg_accounting_witness:
  "messages_received (snd (handle_message [(''.ping'', cmd_ping)] ''01-2025''
       (init_bot test_config ''01-2025'') '':nick!u@h PRIVMSG #chan :hello'')) = 1
   \<and> user_messages (snd (handle_message [(''.ping'', cmd_ping)] ''01-2025''
       (init_bot test_config ''01-2025'') '':nick!u@h PRIVMSG #chan :hello'')) ''nick'' = Some 1
   \<and> commands_processed (snd (handle_message [(''.ping'', cmd_ping)] ''01-2025''
       (init_bot test_config ''01-2025'') '':nick!u@h PRIVMSG #chan :hello'')) = 0
   \<and> messages_received (snd (handle_message [(''.ping'', cmd_ping)] ''01-2025''
       (init_bot test_config ''01-2025'') '':nick!u@h PRIVMSG bot :.ping'')) = 1
   \<and> user_messages (snd (handle_message [(''.ping'', cmd_ping)] ''01-2025''
       (init_bot test_config ''01-2025'') '':nick!u@h PRIVMSG bot :.ping'')) ''nick'' = None
   \<and> commands_processed (snd (handle_message [(''.ping'', cmd_ping)] ''01-2025''
       (init_bot test_config ''01-2025'') '':nick!u@h PRIVMSG bot :.ping'')) = 1"
proof -
  let ?cmds = "[(''.ping'', cmd_ping)]"
  let ?self = "init_bot test_config ''01-2025''"
  let ?l1 = "'':nick!u@h PRIVMSG #chan :hello''"
  let ?l2 = "'':nick!u@h PRIVMSG bot :.ping''"
  have r: "reachable ?cmds ?self" by (rule reachable.start)
  have p1: "startswith ?l1 '':''" "startswith ?l2 '':''" by code_simp+
  have p2: "py_split_max '' '' 2 ?l1 = ['':nick!u@h'', ''PRIVMSG'', ''#chan :hello'']"
    "py_split_max '' '' 2 ?l2 = ['':nick!u@h'', ''PRIVMSG'', ''bot :.ping'']" by code_simp+
  have sd: "''nick'' = hd (py_split ''!'' (drop 1 '':nick!u@h''))" by code_simp
  have tg: "''#chan'' = (if contains ''#chan :hello'' '' :''
      then hd (py_split '' :'' ''#chan :hello'') else ''#chan :hello'')"
    "''bot'' = (if contains ''bot :.ping'' '' :''
      then hd (py_split '' :'' ''bot :.ping'') else ''bot :.ping'')" by code_simp+
  have bd: "''hello'' = (if contains ''#chan :hello'' '' :''
      then py_split_max '' :'' 1 ''#chan :hello'' ! 1 else [])"
    "''.ping'' = (if contains ''bot :.ping'' '' :''
      then py_split_max '' :'' 1 ''bot :.ping'' ! 1 else [])" by code_simp+
  have mt: "False = (\<exists>(k, f) \<in> set ?cmds. startswith ''hello'' k)"
    "True = (\<exists>(k, f) \<in> set ?cmds. startswith ''.ping'' k)"
    by (simp_all add: startswith_def)
  have ch: "channel ?self = ''#chan''" by (simp add: init_bot_def test_config_def)
  have um: "user_messages ?self = Map.empty" "messages_received ?self = 0"
    "commands_processed ?self = 0" by (simp_all add: init_bot_def)
  from privmsg_accounting[OF r p1(1) p2(1) sd tg(1) bd(1) mt(1) refl surjective_pairing, of "''01-2025''"]
    privmsg_accounting[OF r p1(2) p2(2) sd tg(2) bd(2) mt(2) refl surjective_pairing, of "''01-2025''"]
  show ?thesis
    by (simp add: ch um bump_eq)
qed

text \<open>
  The claim as first stated fails: a direct message to the bot, matching no command,
  raises \<open>messages_received\<close> from 0 to 1, all-time and for the month.
\<close>

theorem direct_message_counterexample:
  "messages_received (init_bot test_config ''01-2025'') = 0
   \<and> channel (init_bot test_config ''01-2025'') \<noteq> ''bot''
   \<and> messages_received (snd (handle_message [(''.ping'', cmd_ping)] ''01-2025''
         (init_bot test_config ''01-2025'') '':nick!u@h PRIVMSG bot :hello'')) = 1
   \<and> m_messages_received (get_monthly_stats (snd (handle_message [(''.ping'', cmd_ping)] ''01-2025''
         (init_bot test_config ''01-2025'') '':nick!u@h PRIVMSG bot :hello''))) = 1
   \<and> sent (snd (handle_message [(''.ping'', cmd_ping)] ''01-2025''
         (init_bot test_config ''01-2025'') '':nick!u@h PRIVMSG bot :hello'')) = []"
  by code_simp

section \<open>Month rollover\<close>

lemma check_month_change_idem:
  "check_month_change now (check_month_change now self) = check_month_change now self"
  by (simp add: check_month_change_def Let_def)

lemma check_month_change_current:
  "current_month self = now \<Longrightarrow> check_month_change now self = self"
  by (simp add: check_month_change_def)

lemma check_month_change_others:
  "k \<noteq> now \<Longrightarrow> monthly_stats (check_month_change now self) k = monthly_stats self k"
  by (simp add: check_month_change_def Let_def)

lemma check_month_change_fresh:
  "now \<noteq> current_month self \<Longrightarrow> monthly_stats self now = None \<Longrightarrow>
   monthly_stats (check_month_change now self) now = Some empty_bucket"
  by (simp add: check_month_change_def Let_def)

text \<open>
  Claim C9. \<open>check_month_change\<close> is idempotent for a month, and when that month is
  already the current one it changes nothing. When the clock shows a month other than
  the current one and no bucket exists for it yet, \<open>check_month_change\<close> makes that
  month current and opens an empty bucket for it, leaving every other bucket as it was.
  A channel message handled while the bucket of its month is still empty leaves that
  bucket with one message received and a tally of one for the sender, while the bucket
  of every other month stays stored under its key as it was.
\<close>

theorem month_rollover:
  "check_month_change now (check_month_change now self) = check_month_change now self
   \<and> (current_month self = now \<longrightarrow> check_month_change now self = self)
   \<and> (now \<noteq> current_month self \<and> monthly_stats self now = None \<longrightarrow>
        current_month (check_month_change now self) = now
      \<and> monthly_stats (check_month_change now self) now = Some empty_bucket
      \<and> (\<forall>k. k \<noteq> now \<longrightarrow> monthly_stats (check_month_change now self) k = monthly_stats self k))
   \<and> (monthly_stats (check_month_change now self) now = Some empty_bucket
        \<and> startswith line '':''
        \<and> py_split_max '' '' 2 line = [origin, ''PRIVMSG'', rest]
        \<and> (if contains rest '' :'' then hd (py_split '' :'' rest) else rest) = channel self
        \<and> sender = hd (py_split ''!'' (drop 1 origin))
        \<and> handle_message cmds now self line = (c, self')
      \<longrightarrow> current_month self' = now
        \<and> monthly_stats self' now \<noteq> None
        \<and> m_messages_received (get_monthly_stats self') = 1
        \<and> m_user_messages (get_monthly_stats self') = [sender \<mapsto> 1]
        \<and> (\<forall>k. k \<noteq> now \<longrightarrow> monthly_stats self' k = monthly_stats self k))"
proof (intro conjI impI)
  show "check_month_change now (check_month_change now self) = check_month_change now self"
    by (rule check_month_change_idem)
next
  assume "current_month self = now"
  then show "check_month_change now self = self" by (rule check_month_change_current)
next
  assume a: "now \<noteq> current_month self \<and> monthly_stats self now = None"
  show "current_month (check_month_change now self) = now" by (simp add: fields)
  from a show "monthly_stats (check_month_change now self) now = Some empty_bucket"
    by (simp add: check_month_change_fresh)
  show "\<forall>k. k \<noteq> now \<longrightarrow> monthly_stats (check_month_change now self) k = monthly_stats self k"
    by (simp add: check_month_change_others)
next
  assume a: "monthly_stats (check_month_change now self) now = Some empty_bucket
        \<and> startswith line '':''
        \<and> py_split_max '' '' 2 line = [origin, ''PRIVMSG'', rest]
        \<and> (if contains rest '' :'' then hd (py_split '' :'' rest) else rest) = channel self
        \<and> sender = hd (py_split ''!'' (drop 1 origin))
        \<and> handle_message cmds now self line = (c, self')"
  then have b0: "monthly_stats (check_month_change now self) now = Some empty_bucket"
    and p1: "startswith line '':''"
    and p2: "py_split_max '' '' 2 line = [origin, ''PRIVMSG'', rest]"
    and tg: "channel self = (if contains rest '' :'' then hd (py_split '' :'' rest) else rest)"
    and sd: "sender = hd (py_split ''!'' (drop 1 origin))"
    and h: "handle_message cmds now self line = (c, self')"
    by simp_all
  note e = privmsg_effect[OF b0 p1 p2 h sd tg refl refl]
  from e(4) show "current_month self' = now" .
  from e(5) show "monthly_stats self' now \<noteq> None" .
  from e(6) show "m_messages_received (get_monthly_stats self') = 1"
    by (simp add: empty_bucket_def)
  from e(8) show "m_user_messages (get_monthly_stats self') = [sender \<mapsto> 1]"
    by (simp add: empty_bucket_def bump_eq)
  from e(9) show "\<forall>k. k \<noteq> now \<longrightarrow> monthly_stats self' k = monthly_stats self k"
    by (simp add: check_month_change_others)
qed

theorem month_rollover_witness:
  "check_month_change ''02-2025'' (init_bot test_config ''02-2025'') = init_bot test_config ''02-2025''
   \<and> current_month (check_month_change ''02-2025'' (init_bot test_config ''01-2025'')) = ''02-2025''
   \<and> monthly_stats (check_month_change ''02-2025'' (init_bot test_config ''01-2025'')) ''01-2025''
       = Some empty_bucket
   \<and> current_month (snd (handle_message [(''.ping'', cmd_ping)] ''02-2025''
        (init_bot test_config ''01-2025'') '':nick!u@h PRIVMSG #chan :hello'')) = ''02-2025''
   \<and> m_messages_received (get_monthly_stats (snd (handle_message [(''.ping'', cmd_ping)] ''02-2025''
        (init_bot test_config ''01-2025'') '':nick!u@h PRIVMSG #chan :hello''))) = 1
   \<and> m_user_messages (get_monthly_stats (snd (handle_message [(''.ping'', cmd_ping)] ''02-2025''
        (init_bot test_config ''01-2025'') '':nick!u@h PRIVMSG #chan :hello''))) ''nick'' = Some 1
   \<and> monthly_stats (snd (handle_message [(''.ping'', cmd_ping)] ''02-2025''
        (init_bot test_config ''01-2025'') '':nick!u@h PRIVMSG #chan :hello'')) ''01-2025''
       = Some empty_bucket"
proof -
  let ?cmds = "[(''.ping'', cmd_ping)]"
  let ?self = "init_bot test_config ''01-2025''"
  let ?l1 = "'':nick!u@h PRIVMSG #chan :hello''"
  have cur: "current_month (init_bot test_config ''02-2025'') = ''02-2025''"
    by (simp add: init_bot_def)
  have ne: "''02-2025'' \<noteq> current_month ?self" by (simp add: init_bot_def)
  have nb: "monthly_stats ?self ''02-2025'' = None" by (simp add: init_bot_def)
  have ob: "monthly_stats ?self ''01-2025'' = Some empty_bucket" by (simp add: init_bot_def)
  have p1: "startswith ?l1 '':''" by code_simp
  have p2: "py_split_max '' '' 2 ?l1 = ['':nick!u@h'', ''PRIVMSG'', ''#chan :hello'']"
    by code_simp
  have sd: "''nick'' = hd (py_split ''!'' (drop 1 '':nick!u@h''))" by code_simp
  have tg: "(if contains ''#chan :hello'' '' :''
      then hd (py_split '' :'' ''#chan :hello'') else ''#chan :hello'') = channel ?self"
    by code_simp
  have h: "handle_message ?cmds ''02-2025'' ?self ?l1 =
      (fst (handle_message ?cmds ''02-2025'' ?self ?l1),
       snd (handle_message ?cmds ''02-2025'' ?self ?l1))" by simp
  from month_rollover[of "''02-2025''" "init_bot test_config ''02-2025''"] cur
  have first: "check_month_change ''02-2025'' (init_bot test_config ''02-2025'') =
      init_bot test_config ''02-2025''" by blast
  note m = month_rollover[of "''02-2025''" ?self ?l1 "'':nick!u@h''" "''#chan :hello''" "''nick''"
      ?cmds "fst (handle_message ?cmds ''02-2025'' ?self ?l1)"
      "snd (handle_message ?cmds ''02-2025'' ?self ?l1)"]
  from m ne nb
  have roll: "current_month (check_month_change ''02-2025'' ?self) = ''02-2025''
     \<and> monthly_stats (check_month_change ''02-2025'' ?self) ''02-2025'' = Some empty_bucket
     \<and> (\<forall>k. k \<noteq> ''02-2025'' \<longrightarrow>
           monthly_stats (check_month_change ''02-2025'' ?self) k = monthly_stats ?self k)"
    by blast
  with m p1 p2 sd tg h
  have second: "current_month (snd (handle_message ?cmds ''02-2025'' ?self ?l1)) = ''02-2025''
     \<and> m_messages_received (get_monthly_stats (snd (handle_message ?cmds ''02-2025'' ?self ?l1))) = 1
     \<and> m_user_messages (get_monthly_stats (snd (handle_message ?cmds ''02-2025'' ?self ?l1))) =
         [''nick'' \<mapsto> 1]
     \<and> (\<forall>k. k \<noteq> ''02-2025'' \<longrightarrow>
           monthly_stats (snd (handle_message ?cmds ''02-2025'' ?self ?l1)) k = monthly_stats ?self k)"
    by blast
  then have "monthly_stats (snd (handle_message ?cmds ''02-2025'' ?self ?l1)) ''01-2025'' =
      monthly_stats ?self ''01-2025''" by simp
  moreover from roll have "monthly_stats (check_month_change ''02-2025'' ?self) ''01-2025'' =
      monthly_stats ?self ''01-2025''" by simp
  ultimately show ?thesis using first second roll ob by simp
qed

section \<open>The checks of the receive loop on every line\<close>

lemma handle_message_session:
  assumes h: "handle_message cmds now self line = (c, self')"
  shows "channel self' = channel self \<and> nickname self' = nickname self"
proof -
  let ?s0 = "check_month_change now self"
  let ?s2 = "update_monthly_stats
          (\<lambda>b. b\<lparr>m_messages_received := m_messages_received b + 1\<rparr>)
          (?s0\<lparr>messages_received := messages_received ?s0 + 1\<rparr>)"
  let ?s3 = "\<lambda>sender. update_monthly_stats
          (\<lambda>b. b\<lparr>m_user_messages := bump (m_user_messages b) sender\<rparr>)
          (?s2\<lparr>user_messages := bump (user_messages ?s2) sender\<rparr>)"
  have ch: "channel self' = channel self \<and> nickname self' = nickname self"
    if "channel_commands cmds (?s3 sender) sender msg = (c, self')" for sender msg
    using channel_commands_same[OF that] by (simp add: same_but_commands_def fields)
  have pr: "channel self' = channel self \<and> nickname self' = nickname self"
    if "handle_private_message cmds ?s2 sender msg = (c, self')" for sender msg
    using private_commands_same[OF that] by (simp add: same_but_commands_def fields)
  have f0: "channel ?s0 = channel self" "nickname ?s0 = nickname self"
    "channel ?s2 = channel self" "nickname ?s2 = nickname self"
    by (simp_all add: fields)
  have sr: "channel (send_raw t s) = channel s" "nickname (send_raw t s) = nickname s" for t s
    by (simp_all add: send_raw_def)
  from h f0 show ?thesis
    by (auto simp: handle_message_def Let_def handle_channel_message_def sr
        split: if_splits dest: ch pr)
qed





lemma startswith_contains: "startswith s p \<Longrightarrow> contains s p"
  by (auto simp: startswith_def contains_def prefix_def sublist_def intro: exI[of _ "[]"])

text \<open>
  Claim C10. Take a line that is not blank and that \<open>handle_message\<close> has handled
  without an exception. The receive loop then tests the whole line for substrings, in
  this order: a line containing \<open>001\<close> anywhere makes the bot send \<open>JOIN\<close> for the
  configured channel; otherwise a line containing \<open>433\<close> makes it append a number from 1
  to 999 to the nickname and send \<open>NICK\<close> with the new nickname; otherwise a line
  containing \<open>PING\<close> gets one more reply, the line with \<open>PING\<close> replaced by \<open>PONG\<close>;
  otherwise nothing is sent.
\<close>

theorem server_reply_chain:
  assumes nb: "strip line \<noteq> []"
    and h: "handle_message cmds now self line = (Normal, self1)"
  shows "(contains line ''001'' \<longrightarrow>
            process_line cmds now r self line =
              (Normal, send_raw (''JOIN '' @ channel self) self1))
       \<and> (\<not> contains line ''001'' \<and> contains line ''433'' \<longrightarrow>
            process_line cmds now r self line =
              (Normal, send_raw (''NICK '' @ nickname self @ str_int (1 + int (r mod 999)))
                         (self1\<lparr>nickname := nickname self @ str_int (1 + int (r mod 999))\<rparr>)))
       \<and> (\<not> contains line ''001'' \<and> \<not> contains line ''433'' \<and> contains line ''PING'' \<longrightarrow>
            process_line cmds now r self line =
              (Normal, send_raw (py_replace ''PING'' ''PONG'' line) self1))
       \<and> (\<not> contains line ''001'' \<and> \<not> contains line ''433'' \<and> \<not> contains line ''PING'' \<longrightarrow>
            process_line cmds now r self line = (Normal, self1))"
  using nb h handle_message_session[OF h]
  by (simp add: process_line_def join_channel_def randint_def Let_def)

theorem server_reply_chain_witness:
  "sent (snd (process_line [(''.ping'', cmd_ping)] ''01-2025'' 5 (init_bot test_config ''01-2025'')
       '':nick!u@h PRIVMSG #chan :my number is 555001'')) = [''JOIN #chan'']
   \<and> sent (snd (process_line [(''.ping'', cmd_ping)] ''01-2025'' 5 (init_bot test_config ''01-2025'')
       '':srv 433 * bot :Nickname is already in use'')) = [''NICK bot6'']
   \<and> nickname (snd (process_line [(''.ping'', cmd_ping)] ''01-2025'' 5 (init_bot test_config ''01-2025'')
       '':srv 433 * bot :Nickname is already in use'')) = ''bot6''
   \<and> sent (snd (process_line [(''.ping'', cmd_ping)] ''01-2025'' 5 (init_bot test_config ''01-2025'')
       '':srv NOTICE bot :PING me'')) = ['':srv NOTICE bot :PONG me'']"
proof -
  let ?cmds = "[(''.ping'', cmd_ping)]"
  let ?self = "init_bot test_config ''01-2025''"
  let ?l1 = "'':nick!u@h PRIVMSG #chan :my number is 555001''"
  let ?l2 = "'':srv 433 * bot :Nickname is already in use''"
  let ?l3 = "'':srv NOTICE bot :PING me''"
  have nb: "strip ?l1 \<noteq> []" "strip ?l2 \<noteq> []" "strip ?l3 \<noteq> []" by code_simp+
  have n: "fst (handle_message ?cmds ''01-2025'' ?self ?l1) = Normal"
    "fst (handle_message ?cmds ''01-2025'' ?self ?l2) = Normal"
    "fst (handle_message ?cmds ''01-2025'' ?self ?l3) = Normal" by code_simp+
  have h: "handle_message ?cmds ''01-2025'' ?self ?l1 =
        (Normal, snd (handle_message ?cmds ''01-2025'' ?self ?l1))"
    "handle_message ?cmds ''01-2025'' ?self ?l2 =
        (Normal, snd (handle_message ?cmds ''01-2025'' ?self ?l2))"
    "handle_message ?cmds ''01-2025'' ?self ?l3 =
        (Normal, snd (handle_message ?cmds ''01-2025'' ?self ?l3))"
    using n by (simp_all add: prod_eq_iff)
  have c: "contains ?l1 ''001''" "\<not> contains ?l2 ''001''" "contains ?l2 ''433''"
    "\<not> contains ?l3 ''001''" "\<not> contains ?l3 ''433''" "contains ?l3 ''PING''"
    by code_simp+
  have s: "sent (snd (handle_message ?cmds ''01-2025'' ?self ?l1)) = []"
    "sent (snd (handle_message ?cmds ''01-2025'' ?self ?l2)) = []"
    "sent (snd (handle_message ?cmds ''01-2025'' ?self ?l3)) = []" by code_simp+
  have v: "channel ?self = ''#chan''" "nickname ?self = ''bot''"
    "str_int (1 + int (5 mod 999)) = ''6''"
    "py_replace ''PING'' ''PONG'' ?l3 = '':srv NOTICE bot :PONG me''" by code_simp+
  from server_reply_chain[OF nb(1) h(1), of 5] server_reply_chain[OF nb(2) h(2), of 5]
    server_reply_chain[OF nb(3) h(3), of 5] c s v
  show ?thesis by (simp add: send_raw_def)
qed

section \<open>Replies to PING\<close>





section \<open>The receive loop over several reads\<close>













lemma recv_waiting_iff:
  "(recv_loop cmds w k self buffer evs = None) = (recv_waiting cmds w k self buffer evs \<noteq> None)"
proof (induction evs arbitrary: k self buffer)
  case Nil
  show ?case by simp
next
  case (Cons e evs)
  show ?case
  proof (cases e)
    case RecvError
    then show ?thesis by simp
  next
    case (Data data)
    obtain l b where f: "feed buffer data = (l, b)" by (cases "feed buffer data")
    obtain c s where p: "process_lines cmds w k self l = (c, s)"
      by (cases "process_lines cmds w k self l")
    from Cons.IH[where k = "k + length l" and self = s and buffer = b] Data f p show ?thesis
      by (cases c) auto
  qed
qed





section \<open>A handler that raises\<close>



lemma more_fields:
  "has_socket (update_monthly_stats f self) = has_socket self"
  "has_socket (check_month_change now self) = has_socket self"
  by (simp_all add: fields)





section \<open>Transport failures\<close>

text \<open>
  Claim C1. What \<open>run\<close> does on a transport failure, with auto-reconnect enabled in
  the configuration: when the connection is refused it returns at once; when the peer
  closes the connection or a read fails it sends \<open>QUIT\<close> and returns. The events that
  follow are never read: the bot does not connect again.
\<close>

theorem run_returns_on_transport_failure:
  "AUTO_RECONNECT (cfg\<lparr>AUTO_RECONNECT := True\<rparr>)
   \<and> run cmds w False (init_bot (cfg\<lparr>AUTO_RECONNECT := True\<rparr>) month) evs =
       Some (init_bot (cfg\<lparr>AUTO_RECONNECT := True\<rparr>) month)
   \<and> run cmds w True (init_bot (cfg\<lparr>AUTO_RECONNECT := True\<rparr>) month) (Data [] # evs) =
       Some (cleanup ((snd (connect True (init_bot (cfg\<lparr>AUTO_RECONNECT := True\<rparr>) month)))
                        \<lparr>running := True\<rparr>))
   \<and> run cmds w True (init_bot (cfg\<lparr>AUTO_RECONNECT := True\<rparr>) month) (RecvError # evs) =
       Some (cleanup ((snd (connect True (init_bot (cfg\<lparr>AUTO_RECONNECT := True\<rparr>) month)))
                        \<lparr>running := True\<rparr>))
   \<and> sent (cleanup ((snd (connect True (init_bot (cfg\<lparr>AUTO_RECONNECT := True\<rparr>) month)))
                        \<lparr>running := True\<rparr>)) =
       [''NICK '' @ BOT_NICKNAME cfg,
        ''USER '' @ BOT_USERNAME cfg @ '' 0 * :'' @ BOT_REALNAME cfg,
        ''QUIT :PyIRCBot signing off!'']
   \<and> \<not> running (cleanup ((snd (connect True (init_bot (cfg\<lparr>AUTO_RECONNECT := True\<rparr>) month)))
                        \<lparr>running := True\<rparr>))"
  by (simp add: run_def connect_def cleanup_def send_raw_def init_bot_def Let_def)

section \<open>Dice\<close>

lemma decimal_digit_digit_char: "d < 10 \<Longrightarrow> decimal_digit (digit_char d)"
  by (simp add: decimal_digit_def digit_char_def)

lemma digit_char_value: "d < 10 \<Longrightarrow> int (of_char (digit_char d)) - 48 = int d"
  by (simp add: digit_char_def)

lemma str_nat_digits: "\<forall>c \<in> set (str_nat n). decimal_digit c"
proof (induction n rule: str_nat.induct)
  case (1 n)
  show ?case
  proof (cases "n < 10")
    case True
    then show ?thesis by (subst str_nat.simps) (simp add: decimal_digit_digit_char)
  next
    case False
    with "1.IH" show ?thesis
      by (subst str_nat.simps) (simp add: decimal_digit_digit_char)
  qed
qed

lemma str_nat_nonempty: "str_nat n \<noteq> []"
  by (subst str_nat.simps) simp

lemma digits_value_str_nat:
  "foldl (\<lambda>n c. 10 * n + (int (of_char c) - 48)) 0 (str_nat n) = int n"
proof (induction n rule: str_nat.induct)
  case (1 n)
  show ?case
  proof (cases "n < 10")
    case True
    then show ?thesis
      by (subst str_nat.simps) (simp add: digit_char_value)
  next
    case False
    then have "foldl (\<lambda>n c. 10 * n + (int (of_char c) - 48)) 0 (str_nat (n div 10)) =
        int (n div 10)" by (rule "1.IH")
    moreover have "10 * int (n div 10) + int (n mod 10) = int n"
      by (simp add: zdiv_int zmod_int flip: of_nat_mult of_nat_add)
    ultimately show ?thesis using False
      by (subst str_nat.simps) (simp add: digit_char_value)
  qed
qed

lemma not_decimal_digit_d: "\<not> decimal_digit CHR ''d''"
  by (simp add: decimal_digit_def)

lemma takeWhile_digits:
  "\<forall>c \<in> set ds. decimal_digit c \<Longrightarrow> \<not> decimal_digit x \<Longrightarrow>
   takeWhile decimal_digit (ds @ x # xs) = ds \<and> dropWhile decimal_digit (ds @ x # xs) = x # xs"
  by (induction ds) auto

lemma dice_search_NdS:
  "dice_search (''.dice '' @ str_nat n @ ''d'' @ str_nat s) = Some (str_nat n, str_nat s)"
proof -
  have t1: "takeWhile decimal_digit (str_nat n @ CHR ''d'' # str_nat s) = str_nat n"
    and d1: "dropWhile decimal_digit (str_nat n @ CHR ''d'' # str_nat s) = CHR ''d'' # str_nat s"
    using takeWhile_digits[OF str_nat_digits not_decimal_digit_d] by simp_all
  have t2: "takeWhile decimal_digit (str_nat s) = str_nat s"
    using str_nat_digits[of s] by (simp only: takeWhile_eq_all_conv)
  have "dice_match_at (''.dice '' @ str_nat n @ ''d'' @ str_nat s) = Some (str_nat n, str_nat s)"
    using str_nat_nonempty[of n] str_nat_nonempty[of s]
    by (simp add: dice_match_at_def Let_def t1 d1 t2 del: takeWhile_eq_all_conv)
  then show ?thesis by simp
qed

lemma int_of_digits_str_nat:
  "length (str_nat n) \<le> 4300 \<Longrightarrow> int_of_digits (str_nat n) = Some (int n)"
  by (simp add: int_of_digits_def digits_value_str_nat)

text \<open>
  With the limits 10 and 100 the handler refuses without a draw, for numbers that \<open>int\<close>
  converts; a longer run of digits gets the reply for an invalid format instead.
\<close>

lemma dice_fixed_limits:
  assumes "10 < n \<or> 100 < s"
    and "length (str_nat n) \<le> 4300" and "length (str_nat s) \<le> 4300"
  shows "cmd_dice tape sender (''.dice '' @ str_nat n @ ''d'' @ str_nat s) =
     (''Dice too large! Max 10 dice, 100 sides.'', 0)"
  using assms dice_search_NdS[of n s]
  by (auto simp: cmd_dice_def int_of_digits_str_nat)

lemma dice_too_many_digits:
  assumes "4300 < length (str_nat n) \<or> 4300 < length (str_nat s)"
  shows "cmd_dice tape sender (''.dice '' @ str_nat n @ ''d'' @ str_nat s) =
     (''Invalid dice format! Use .dice or .dice XdY'', 0)"
  using assms dice_search_NdS[of n s]
  by (auto simp: cmd_dice_def int_of_digits_def)

lemma dice_default:
  "\<exists>v. 1 \<le> v \<and> v \<le> 6 \<and> cmd_dice tape sender ''.dice'' = (sender @ '' rolled: '' @ str_int v, 1)"
proof -
  have "tape 0 mod 6 < 6" by simp
  then have "1 \<le> 1 + int (tape 0 mod 6) \<and> 1 + int (tape 0 mod 6) \<le> 6" by linarith
  then show ?thesis
    by (intro exI[of _ "1 + int (tape 0 mod 6)"]) (simp add: cmd_dice_def randint_def)
qed

text \<open>
  Claim C8. \<open>cmd_dice\<close> compares with 10 and 100, not with the configured maxima: with
  the maximum dice count configured as 5, the command \<open>.dice 7d6\<close> is not refused; seven
  dice are rolled, with seven random draws.
\<close>

theorem dice_ignores_configured_limits:
  "MAX_DICE_COUNT (default_config\<lparr>MAX_DICE_COUNT := 5\<rparr>) < 7
   \<and> cmd_dice id ''nick'' ''.dice 7d6'' =
       (''nick rolled 7d6: [1, 2, 3, 4, 5, 6, 1] (Total: 22)'', 7)"
  by code_simp

end
